theory Spec2Isabelle
  imports Main
begin

section \<open>Strings, numbers and errors of the script\<close>

text \<open>
  A JavaScript string is modelled as a \<^typ>\<open>string\<close>, one \<^typ>\<open>char\<close> per code unit.
  The only code units the script's escaping looks at are \<open>&\<close>, \<open><\<close>, \<open>>\<close> and the
  no-break space U+00A0; every other unit is passed through, so units above 0xFF behave
  like any other unescaped character.
\<close>

definition nl :: string where
  "nl = [CHR 0x0A]"

definition dq :: char where
  "dq = CHR 0x22"

definition sq :: char where
  "sq = CHR 0x27"

definition startsWith :: "string \<Rightarrow> string \<Rightarrow> bool" where
  "startsWith s p = (take (length p) s = p)"

fun str_includes :: "string \<Rightarrow> string \<Rightarrow> bool" where
  "str_includes [] p = (p = [])"
| "str_includes (c # cs) p = (take (length p) (c # cs) = p \<or> str_includes cs p)"

text \<open>
  A JavaScript number that is used as an array index: an integer or \<open>NaN\<close>
  (\<open>x % 0\<close> is \<open>NaN\<close>, and \<open>NaN\<close> is absorbing for \<open>+\<close> and \<open>%\<close>).
  The remainder operator \<open>%\<close> takes the sign of the dividend.
\<close>

datatype jsnum = Num int | NaN

fun js_add :: "jsnum \<Rightarrow> jsnum \<Rightarrow> jsnum" where
  "js_add (Num a) (Num b) = Num (a + b)"
| "js_add _ _ = NaN"

fun js_sub :: "jsnum \<Rightarrow> jsnum \<Rightarrow> jsnum" where
  "js_sub (Num a) (Num b) = Num (a - b)"
| "js_sub _ _ = NaN"

fun js_rem :: "jsnum \<Rightarrow> jsnum \<Rightarrow> jsnum" where
  "js_rem (Num a) (Num b) = (if b = 0 then NaN else Num (sgn a * (\<bar>a\<bar> mod \<bar>b\<bar>)))"
| "js_rem _ _ = NaN"

text \<open>\<open>xs[i]\<close>: the element, or \<open>undefined\<close> (here \<open>None\<close>) outside the array.\<close>

fun js_index :: "'a list \<Rightarrow> jsnum \<Rightarrow> 'a option" where
  "js_index xs (Num i) = (if 0 \<le> i \<and> i < int (length xs) then Some (xs ! nat i) else None)"
| "js_index xs NaN = None"

text \<open>\<open>xs.slice(0, n)\<close>: a negative end counts from the end of the array.\<close>

definition slice0 :: "'a list \<Rightarrow> int \<Rightarrow> 'a list" where
  "slice0 xs n = (if n < 0 then take (nat (int (length xs) + n)) xs else take (nat n) xs)"

datatype jsError = TypeError | SyntaxError | FetchError string | JsonError string

text \<open>A \<open>classList\<close> is the list of an element's class tokens.\<close>

definition classList_contains :: "string list \<Rightarrow> string \<Rightarrow> bool" where
  "classList_contains cl c = (c \<in> set cl)"

definition classList_add :: "string \<Rightarrow> string list \<Rightarrow> string list" where
  "classList_add c cl = (if c \<in> set cl then cl else cl @ [c])"

definition classList_remove :: "string \<Rightarrow> string list \<Rightarrow> string list" where
  "classList_remove c cl = filter (\<lambda>x. x \<noteq> c) cl"


section \<open>escapeHtml\<close>

text \<open>
  \<^verbatim>\<open>
  function escapeHtml(text) {
    const div = document.createElement('div');
    div.textContent = text;
    return div.innerHTML;
  }
  \<close>
  Setting \<open>textContent\<close> replaces the children of the element by one text node holding
  the string (by nothing when the string is empty). Reading \<open>innerHTML\<close> serialises the
  children; a text node inside a \<open>div\<close> is serialised by the HTML standard's
  "escaping a string" algorithm outside attribute mode: \<open>&\<close> becomes \<open>&amp;\<close>, U+00A0
  becomes \<open>&nbsp;\<close>, \<open><\<close> becomes \<open>&lt;\<close>, \<open>>\<close> becomes \<open>&gt;\<close>. The double quote is
  replaced in attribute mode only, which a text node never is in.
\<close>

datatype node = TextNode string

definition textContent_set :: "string \<Rightarrow> node list" where
  "textContent_set text = (if text = [] then [] else [TextNode text])"

definition escapeChar :: "char \<Rightarrow> string" where
  "escapeChar c =
     (if c = CHR ''&'' then ''&amp;''
      else if c = CHR 0xA0 then ''&nbsp;''
      else if c = CHR ''<'' then ''&lt;''
      else if c = CHR ''>'' then ''&gt;''
      else [c])"

fun serializeNode :: "node \<Rightarrow> string" where
  "serializeNode (TextNode d) = concat (map escapeChar d)"

definition innerHTML_get :: "node list \<Rightarrow> string" where
  "innerHTML_get children = concat (map serializeNode children)"

definition escapeHtml :: "string \<Rightarrow> string" where
  "escapeHtml text = innerHTML_get (textContent_set text)"


section \<open>Data model\<close>

record artItem =
  art_image :: string
  art_title :: string
  art_year :: string

record artCatalog =
  heroImages :: "artItem list"
  artworks :: "artItem list"

record project =
  proj_title :: string
  proj_description :: string
  proj_technologies :: "string list"
  proj_link :: "string option"

record projectCatalog =
  projects :: "project list"

record linksConfig =
  github :: string
  resume :: string

definition projectsPerLoad :: int where
  "projectsPerLoad = 6"


section \<open>Elements the script creates\<close>

text \<open>A project card: \<open>card_onclick\<close> is the link its click listener navigates to.\<close>

record card =
  card_className :: string
  card_innerHTML :: string
  card_cursor :: string
  card_onclick :: "string option"

record featuredDiv =
  fd_className :: string
  fd_transitionDelay :: string
  fd_innerHTML :: string

text \<open>
  A block of the full gallery: \<open>gi_onclick\<close> holds the arguments of the
  \<open>openLightbox(allArt, index)\<close> call its click listener makes.
\<close>

record galleryItem =
  gi_className :: string
  gi_innerHTML :: string
  gi_onclick :: "artItem list \<times> nat"

text \<open>A thumbnail of the lightbox strip: its click listener sets the index to \<open>th_onclick\<close>.\<close>

record thumbnail =
  th_classList :: "string list"
  th_innerHTML :: string
  th_onclick :: nat

text \<open>
  An anchor of the page. \<open>a_resume\<close>: it carries the class \<open>js-resume-download\<close>.
  \<open>a_smooth\<close>: \<open>setupSmoothScroll\<close> attached its click listener (the anchor matched
  \<open>a[href^="#"]\<close> when the page was set up).
\<close>

record anchor =
  a_href :: "string option"
  a_download :: "string option"
  a_resume :: bool
  a_smooth :: bool


section \<open>State\<close>

text \<open>
  What the script does to its environment besides changing the elements below is kept
  as a log. \<open>Invoked f\<close> records the entry into one of the renderers that \<open>loadData\<close>
  calls.
\<close>

datatype effect =
    ConsoleError jsError
  | Invoked string
  | ObserveScrollReveal
  | SetTimeout nat nat
  | StopPropagation
  | ScrollIntoView nat
  | ScrollTo int string
  | Navigate string
  | Uncaught jsError

text \<open>
  The script's global variables, and the elements of the page it looks up. An element
  that the page may lack is an option: \<open>None\<close> is what \<open>getElementById\<close> returns as
  \<open>null\<close>. \<open>loadMoreProjects\<close> holds the button's \<open>style.display\<close>, \<open>galleryModal\<close> and
  \<open>imageModal\<close> their class lists, \<open>modalImg\<close> the image's \<open>src\<close> and \<open>alt\<close>, \<open>navbar\<close>
  its \<open>offsetHeight\<close>. \<open>querySelector\<close> is the document's answer to
  \<open>document.querySelector(sel)\<close>: a \<open>SyntaxError\<close> for a selector that does not parse,
  otherwise the \<open>offsetTop\<close> of the first match, if there is one.
\<close>

record state =
  artData :: artCatalog
  projectData :: projectCatalog
  displayedProjectCount :: int
  currentLightboxIndex :: jsnum
  currentLightboxSource :: "artItem list"
  codeGrid :: "card list option"
  loadMoreProjects :: "string option"
  featuredArtGrid :: "featuredDiv list option"
  viewAllArt :: bool
  galleryModal :: "string list option"
  galleryClose :: bool
  fullGalleryGrid :: "galleryItem list option"
  imageModal :: "string list option"
  modalImg :: "(string \<times> string) option"
  thumbnailStrip :: "thumbnail list option"
  modalClose :: bool
  modalPrev :: bool
  modalNext :: bool
  navbar :: "int option"
  bodyOverflow :: string
  anchors :: "anchor list"
  heroText :: nat
  querySelector :: "string \<Rightarrow> jsError + int option"
  effects :: "effect list"

text \<open>
  A handler either runs to its end or throws; the state at the throw is kept, since the
  assignments made before it stay.
\<close>

datatype outcome = Done state | Thrown jsError state

fun andThen :: "outcome \<Rightarrow> (state \<Rightarrow> outcome) \<Rightarrow> outcome" where
  "andThen (Done s) f = f s"
| "andThen (Thrown e s) f = Thrown e s"

definition emit :: "effect \<Rightarrow> state \<Rightarrow> state" where
  "emit x s = s\<lparr>effects := effects s @ [x]\<rparr>"

text \<open>
  The page as the script finds it: the globals at their initial values
  (\<open>displayedProjectCount = 6\<close>, empty catalogs, index 0, empty source).
\<close>

definition initial_globals :: "state \<Rightarrow> bool" where
  "initial_globals s =
     (heroImages (artData s) = [] \<and> artworks (artData s) = [] \<and>
      projects (projectData s) = [] \<and>
      displayedProjectCount s = 6 \<and>
      currentLightboxIndex s = Num 0 \<and>
      currentLightboxSource s = [])"

section \<open>Loops\<close>

text \<open>\<open>xs.forEach((x, index) => body)\<close>, the body acting on what it mutates.\<close>

fun forEach :: "('a \<Rightarrow> nat \<Rightarrow> 's \<Rightarrow> 's) \<Rightarrow> 'a list \<Rightarrow> nat \<Rightarrow> 's \<Rightarrow> 's" where
  "forEach body [] index acc = acc"
| "forEach body (x # xs) index acc = forEach body xs (Suc index) (body x index acc)"


section \<open>Scroll reveal, links and hero animation\<close>

definition setupScrollAnimations :: "state \<Rightarrow> state" where
  "setupScrollAnimations s = emit ObserveScrollReveal s"

text \<open>
  \<open>updateLinks\<close>: both node lists are taken before any anchor is changed, so whether
  an anchor is selected is decided on the anchor as it was.
\<close>

definition isGithubLink :: "anchor \<Rightarrow> bool" where
  "isGithubLink a = (case a_href a of None \<Rightarrow> False | Some h \<Rightarrow> str_includes h ''github.com'')"

definition updateLink :: "linksConfig \<Rightarrow> anchor \<Rightarrow> anchor" where
  "updateLink links a =
     (let a1 = (if isGithubLink a then a\<lparr>a_href := Some (github links)\<rparr> else a)
      in if a_resume a
         then a1\<lparr>a_href := Some (resume links), a_download := Some ''Dixit_Parmar_Resume.pdf''\<rparr>
         else a1)"

definition updateLinks :: "linksConfig \<Rightarrow> state \<Rightarrow> state" where
  "updateLinks links s =
     (let s0 = emit (Invoked ''updateLinks'') s
      in s0\<lparr>anchors := map (updateLink links) (anchors s0)\<rparr>)"

definition animateHero :: "state \<Rightarrow> state" where
  "animateHero s =
     forEach (\<lambda>el index acc. emit (SetTimeout index (index * 150 + 400)) acc)
       (replicate (heroText s) ()) 0 (emit (Invoked ''animateHero'') s)"


section \<open>Featured art\<close>

definition featuredHTML :: "artItem \<Rightarrow> string" where
  \<open>featuredHTML art =
     nl @ ''      <div class="relative overflow-hidden rounded-xl">'' @
     nl @ ''        <img src="'' @ escapeHtml (art_image art) @ ''" alt="'' @
            escapeHtml (art_title art) @ ''"'' @
     nl @ ''          class="w-full h-auto transition-transform duration-500 group-hover:scale-105">'' @
     nl @ ''      </div>'' @
     nl @ ''      <h3 class="text-[17px] font-semibold mt-4 mb-1 text-[#444]">'' @
            escapeHtml (art_title art) @ ''</h3>'' @
     nl @ ''      <p class="text-[14px] font-semibold text-[#444]/40">'' @
            escapeHtml (art_year art) @ ''</p>'' @
     nl @ ''    ''\<close>

definition featuredBlock :: "artItem \<Rightarrow> nat \<Rightarrow> featuredDiv" where
  "featuredBlock art index =
     \<lparr>fd_className = ''scroll-reveal group'',
      fd_transitionDelay = (if index = 1 then ''100ms'' else []),
      fd_innerHTML = featuredHTML art\<rparr>"

definition loadFeaturedArt :: "state \<Rightarrow> state" where
  "loadFeaturedArt s0 =
     (let s = emit (Invoked ''loadFeaturedArt'') s0
      in case featuredArtGrid s of
           None \<Rightarrow> s
         | Some _ \<Rightarrow>
             let featured = slice0 (heroImages (artData s)) 2;
                 grid = forEach (\<lambda>art index g. g @ [featuredBlock art index]) featured 0 []
             in setupScrollAnimations (s\<lparr>featuredArtGrid := Some grid\<rparr>))"


section \<open>Project cards and load more\<close>

definition techBadge :: "string \<Rightarrow> string" where
  \<open>techBadge tech = ''<span class="tech-badge">'' @ escapeHtml tech @ ''</span>''\<close>

definition cardHTML :: "project \<Rightarrow> string" where
  \<open>cardHTML project =
     nl @ ''        <h3>'' @ escapeHtml (proj_title project) @ ''</h3>'' @
     nl @ ''        <p>'' @ escapeHtml (proj_description project) @ ''</p>'' @
     nl @ ''        <div class="tech-stack">'' @
     nl @ ''          '' @ concat (map techBadge (proj_technologies project)) @
     nl @ ''        </div>'' @
     nl @ ''      ''\<close>

text \<open>\<open>if (project.link)\<close>: a missing link and the empty string are both falsy.\<close>

definition hasLink :: "project \<Rightarrow> bool" where
  "hasLink project = (case proj_link project of None \<Rightarrow> False | Some l \<Rightarrow> l \<noteq> [])"

definition createCard :: "project \<Rightarrow> card" where
  "createCard project =
     \<lparr>card_className = ''code-card scroll-reveal'',
      card_innerHTML = cardHTML project,
      card_cursor = (if hasLink project then ''pointer'' else []),
      card_onclick = (if hasLink project then proj_link project else None)\<rparr>"

definition appendCard :: "bool \<Rightarrow> int \<Rightarrow> project \<Rightarrow> nat \<Rightarrow> card list \<Rightarrow> card list" where
  "appendCard initial count project index grid =
     (if initial \<or> int index \<ge> count - projectsPerLoad
      then grid @ [createCard project] else grid)"

definition loadCodeProjects :: "bool \<Rightarrow> state \<Rightarrow> state" where
  "loadCodeProjects initial s0 =
     (let s = emit (Invoked ''loadCodeProjects'') s0
      in case codeGrid s of
           None \<Rightarrow> s
         | Some g \<Rightarrow>
             let g0 = (if initial then [] else g);
                 projectsToShow = slice0 (projects (projectData s)) (displayedProjectCount s);
                 g1 = forEach (appendCard initial (displayedProjectCount s)) projectsToShow 0 g0;
                 s1 = s\<lparr>codeGrid := Some g1\<rparr>;
                 s2 = (case loadMoreProjects s1 of
                         None \<Rightarrow> s1
                       | Some _ \<Rightarrow>
                           s1\<lparr>loadMoreProjects :=
                                Some (if displayedProjectCount s1
                                          \<ge> int (length (projects (projectData s1)))
                                      then ''none'' else ''block'')\<rparr>)
             in setupScrollAnimations s2)"

text \<open>The click listener of the load-more button; there is none when the button is absent.\<close>

definition clickLoadMore :: "state \<Rightarrow> state" where
  "clickLoadMore s =
     (case loadMoreProjects s of
        None \<Rightarrow> s
      | Some _ \<Rightarrow>
          loadCodeProjects False
            (s\<lparr>displayedProjectCount := displayedProjectCount s + projectsPerLoad\<rparr>))"

text \<open>A click on card \<open>i\<close>: \<open>window.location.href = project.link\<close>, when the card has a listener.\<close>

definition clickCard :: "nat \<Rightarrow> state \<Rightarrow> state" where
  "clickCard i s =
     (case codeGrid s of
        None \<Rightarrow> s
      | Some g \<Rightarrow>
          if i < length g
          then (case card_onclick (g ! i) of None \<Rightarrow> s | Some l \<Rightarrow> emit (Navigate l) s)
          else s)"

section \<open>Lightbox\<close>

definition imgTag :: "artItem \<Rightarrow> string" where
  \<open>imgTag art =
     ''<img src="'' @ escapeHtml (art_image art) @ ''" alt="'' @ escapeHtml (art_title art) @ ''">''\<close>

text \<open>
  \<open>document.querySelectorAll('.thumbnail')\<close>: the thumbnails are the children of the
  strip, the only elements the script gives that class.
\<close>

definition thumbnails :: "state \<Rightarrow> thumbnail list" where
  "thumbnails s = (case thumbnailStrip s of None \<Rightarrow> [] | Some ts \<Rightarrow> ts)"

definition markThumb :: "jsnum \<Rightarrow> thumbnail \<Rightarrow> nat \<Rightarrow> state \<Rightarrow> state" where
  "markThumb cur thumb idx s =
     (if Num (int idx) = cur
      then emit (ScrollIntoView idx)
             (s\<lparr>thumbnailStrip :=
                  map_option
                    (\<lambda>ts. ts[idx := thumb\<lparr>th_classList := classList_add ''active'' (th_classList thumb)\<rparr>])
                    (thumbnailStrip s)\<rparr>)
      else s\<lparr>thumbnailStrip :=
                map_option
                  (\<lambda>ts. ts[idx := thumb\<lparr>th_classList := classList_remove ''active'' (th_classList thumb)\<rparr>])
                  (thumbnailStrip s)\<rparr>)"

text \<open>
  \<open>modalImg.src = item.image\<close> throws a TypeError when the item is \<open>undefined\<close> (an
  index outside the source, or \<open>NaN\<close>) and when the image element is absent.
\<close>

definition updateLightboxContent :: "state \<Rightarrow> outcome" where
  "updateLightboxContent s =
     (case js_index (currentLightboxSource s) (currentLightboxIndex s) of
        None \<Rightarrow> Thrown TypeError s
      | Some item \<Rightarrow>
          (case modalImg s of
             None \<Rightarrow> Thrown TypeError s
           | Some _ \<Rightarrow>
               let s1 = s\<lparr>modalImg := Some (art_image item, art_title item)\<rparr>
               in Done (forEach (markThumb (currentLightboxIndex s1)) (thumbnails s1) 0 s1)))"

definition createThumb :: "jsnum \<Rightarrow> artItem \<Rightarrow> nat \<Rightarrow> thumbnail" where
  "createThumb cur item index =
     \<lparr>th_classList = (if Num (int index) = cur then [''thumbnail'', ''active''] else [''thumbnail'']),
      th_innerHTML = imgTag item,
      th_onclick = index\<rparr>"

definition generateThumbnails :: "state \<Rightarrow> outcome" where
  "generateThumbnails s =
     (case thumbnailStrip s of
        None \<Rightarrow> Thrown TypeError s
      | Some _ \<Rightarrow>
          Done (s\<lparr>thumbnailStrip :=
                    Some (forEach (\<lambda>item index strip. strip @ [createThumb (currentLightboxIndex s) item index])
                            (currentLightboxSource s) 0 [])\<rparr>))"

definition openLightbox :: "artItem list \<Rightarrow> nat \<Rightarrow> state \<Rightarrow> outcome" where
  "openLightbox dataSource index s0 =
     (let s = s0\<lparr>currentLightboxSource := dataSource, currentLightboxIndex := Num (int index)\<rparr>
      in case imageModal s of
           None \<Rightarrow> Thrown TypeError s
         | Some cl \<Rightarrow>
             andThen
               (updateLightboxContent
                  (s\<lparr>imageModal := Some (classList_add ''active'' (classList_remove ''hidden'' cl)),
                     bodyOverflow := ''hidden''\<rparr>))
               generateThumbnails)"

definition closeLightbox :: "state \<Rightarrow> outcome" where
  "closeLightbox s =
     (case imageModal s of
        None \<Rightarrow> Thrown TypeError s
      | Some cl \<Rightarrow>
          Done (s\<lparr>imageModal := Some (classList_remove ''active'' (classList_add ''hidden'' cl)),
                  bodyOverflow := ''auto''\<rparr>))"

text \<open>
  The lightbox is open when its modal does not carry the class \<open>hidden\<close>: the test of
  the \<open>keydown\<close> listener, \<open>!modal.classList.contains('hidden')\<close>.
\<close>

definition lightboxOpen :: "state \<Rightarrow> bool" where
  "lightboxOpen s =
     (case imageModal s of None \<Rightarrow> False | Some cl \<Rightarrow> \<not> classList_contains cl ''hidden'')"

text \<open>\<open>nextImage(e)\<close> and \<open>prevImage(e)\<close>; \<open>e\<close> says whether an event was passed.\<close>

definition sourceLength :: "state \<Rightarrow> jsnum" where
  "sourceLength s = Num (int (length (currentLightboxSource s)))"

definition nextImage :: "bool \<Rightarrow> state \<Rightarrow> outcome" where
  "nextImage e s0 =
     (let s = (if e then emit StopPropagation s0 else s0)
      in updateLightboxContent
           (s\<lparr>currentLightboxIndex :=
                js_rem (js_add (currentLightboxIndex s) (Num 1)) (sourceLength s)\<rparr>))"

definition prevImage :: "bool \<Rightarrow> state \<Rightarrow> outcome" where
  "prevImage e s0 =
     (let s = (if e then emit StopPropagation s0 else s0)
      in updateLightboxContent
           (s\<lparr>currentLightboxIndex :=
                js_rem (js_add (js_sub (currentLightboxIndex s) (Num 1)) (sourceLength s))
                  (sourceLength s)\<rparr>))"

text \<open>A click on thumbnail \<open>i\<close> of the strip.\<close>

definition clickThumbnail :: "nat \<Rightarrow> state \<Rightarrow> outcome" where
  "clickThumbnail i s =
     (if i < length (thumbnails s)
      then updateLightboxContent
             ((emit StopPropagation s)\<lparr>currentLightboxIndex := Num (int (th_onclick (thumbnails s ! i)))\<rparr>)
      else Done s)"

text \<open>
  The listeners of \<open>setupLightboxControls\<close>. Those of the three buttons exist when the
  button does. \<open>modal.addEventListener\<close> throws when the modal is absent, so the
  \<open>keydown\<close> listener, which is added after it, exists only when the modal does.
\<close>

definition clickModalClose :: "state \<Rightarrow> outcome" where
  "clickModalClose s = (if modalClose s then closeLightbox s else Done s)"

definition clickModalNext :: "state \<Rightarrow> outcome" where
  "clickModalNext s = (if modalNext s then nextImage True s else Done s)"

definition clickModalPrev :: "state \<Rightarrow> outcome" where
  "clickModalPrev s = (if modalPrev s then prevImage True s else Done s)"

text \<open>A click whose target is the modal itself (its background).\<close>

definition clickModalBackground :: "state \<Rightarrow> outcome" where
  "clickModalBackground s = (case imageModal s of None \<Rightarrow> Done s | Some _ \<Rightarrow> closeLightbox s)"

definition keydown :: "string \<Rightarrow> state \<Rightarrow> outcome" where
  "keydown key s =
     (case imageModal s of
        None \<Rightarrow> Done s
      | Some cl \<Rightarrow>
          if \<not> classList_contains cl ''hidden''
          then andThen
                 (andThen (if key = ''Escape'' then closeLightbox s else Done s)
                    (\<lambda>s1. if key = ''ArrowRight'' then nextImage False s1 else Done s1))
                 (\<lambda>s2. if key = ''ArrowLeft'' then prevImage False s2 else Done s2)
          else Done s)"


section \<open>Gallery modal\<close>

definition createGalleryItem :: "artItem list \<Rightarrow> artItem \<Rightarrow> nat \<Rightarrow> galleryItem" where
  "createGalleryItem allArt art index =
     \<lparr>gi_className = ''masonry-item'',
      gi_innerHTML = imgTag art,
      gi_onclick = (allArt, index)\<rparr>"

text \<open>
  The click listener of the view-all button, added when the button and the gallery
  modal both exist. \<open>fullGalleryGrid.innerHTML = ''\<close> throws when the grid is absent.
\<close>

definition clickViewAll :: "state \<Rightarrow> outcome" where
  "clickViewAll s =
     (case galleryModal s of
        None \<Rightarrow> Done s
      | Some cl \<Rightarrow>
          if \<not> viewAllArt s then Done s
          else (case fullGalleryGrid s of
                  None \<Rightarrow> Thrown TypeError s
                | Some _ \<Rightarrow>
                    let allArt = heroImages (artData s) @ artworks (artData s);
                        grid = forEach (\<lambda>art index g. g @ [createGalleryItem allArt art index])
                                 allArt 0 []
                    in Done (s\<lparr>fullGalleryGrid := Some grid,
                               galleryModal := Some (classList_add ''active'' (classList_remove ''hidden'' cl)),
                               bodyOverflow := ''hidden''\<rparr>)))"

definition clickGalleryClose :: "state \<Rightarrow> outcome" where
  "clickGalleryClose s =
     (if \<not> galleryClose s then Done s
      else (case galleryModal s of
              None \<Rightarrow> Thrown TypeError s
            | Some cl \<Rightarrow>
                Done (s\<lparr>galleryModal := Some (classList_remove ''active'' (classList_add ''hidden'' cl)),
                        bodyOverflow := ''auto''\<rparr>)))"

text \<open>A click on block \<open>i\<close> of the full gallery grid runs the call its listener holds.\<close>

definition clickGalleryItem :: "nat \<Rightarrow> state \<Rightarrow> outcome" where
  "clickGalleryItem i s =
     (case fullGalleryGrid s of
        None \<Rightarrow> Done s
      | Some g \<Rightarrow>
          if i < length g
          then openLightbox (fst (gi_onclick (g ! i))) (snd (gi_onclick (g ! i))) s
          else Done s)"


section \<open>Smooth scroll\<close>

text \<open>
  The click listener of an in-page anchor, on the value of \<open>getAttribute('href')\<close>
  (\<open>None\<close> when the attribute is gone). The first component of the result says
  whether \<open>e.preventDefault()\<close> was called.
\<close>

definition smoothScrollClick :: "string option \<Rightarrow> state \<Rightarrow> bool \<times> outcome" where
  "smoothScrollClick href s =
     (case href of
        None \<Rightarrow> (False, Done s)
      | Some targetId \<Rightarrow>
          if targetId = [] \<or> \<not> startsWith targetId ''#'' then (False, Done s)
          else if targetId = ''#'' then (True, Done s)
          else (case querySelector s targetId of
                  Inl err \<Rightarrow> (True, Thrown err s)
                | Inr None \<Rightarrow> (True, Done s)
                | Inr (Some offsetTop) \<Rightarrow>
                    let navHeight = (case navbar s of None \<Rightarrow> 0 | Some h \<Rightarrow> if h = 0 then 0 else h);
                        targetPosition = offsetTop - navHeight
                    in (True, Done (emit (ScrollTo targetPosition ''smooth'') s))))"

definition clickAnchor :: "nat \<Rightarrow> state \<Rightarrow> outcome" where
  "clickAnchor i s =
     (if i < length (anchors s) \<and> a_smooth (anchors s ! i)
      then snd (smoothScrollClick (a_href (anchors s ! i)) s)
      else Done s)"


section \<open>Loading the data\<close>

text \<open>
  What the network gives \<open>loadData\<close>: either \<open>Promise.all\<close> rejects, or the three
  responses arrive, each with the result its \<open>json()\<close> call has when it is made (a
  parse error or the parsed document). The three \<open>await\<close>s and the four calls after them
  are inside one \<open>try\<close>; the \<open>catch\<close> logs the error.
\<close>

datatype fetched =
    Rejected jsError
  | Resolved "jsError + artCatalog" "jsError + projectCatalog" "jsError + linksConfig"

definition loadData :: "fetched \<Rightarrow> state \<Rightarrow> state" where
  "loadData f s =
     (case f of
        Rejected err \<Rightarrow> emit (ConsoleError err) s
      | Resolved artJson projectJson linksJson \<Rightarrow>
          (case artJson of
             Inl err \<Rightarrow> emit (ConsoleError err) s
           | Inr art \<Rightarrow>
               let s1 = s\<lparr>artData := art\<rparr>
               in (case projectJson of
                     Inl err \<Rightarrow> emit (ConsoleError err) s1
                   | Inr proj \<Rightarrow>
                       let s2 = s1\<lparr>projectData := proj\<rparr>
                       in (case linksJson of
                             Inl err \<Rightarrow> emit (ConsoleError err) s2
                           | Inr linksData \<Rightarrow>
                               animateHero
                                 (loadFeaturedArt
                                    (loadCodeProjects True (updateLinks linksData s2)))))))"


section \<open>Events\<close>

text \<open>
  Everything that can happen to the page once it is set up. An exception that leaves a
  listener is reported by the browser and the page goes on in the state of the throw.
\<close>

datatype event =
    DataArrives fetched
  | ClickLoadMore
  | ClickCard nat
  | ClickViewAll
  | ClickGalleryClose
  | ClickGalleryItem nat
  | ClickThumbnail nat
  | ClickModalClose
  | ClickModalNext
  | ClickModalPrev
  | ClickModalBackground
  | KeyDown string
  | ClickAnchor nat

fun dispatch :: "event \<Rightarrow> state \<Rightarrow> outcome" where
  "dispatch (DataArrives f) s = Done (loadData f s)"
| "dispatch ClickLoadMore s = Done (clickLoadMore s)"
| "dispatch (ClickCard i) s = Done (clickCard i s)"
| "dispatch ClickViewAll s = clickViewAll s"
| "dispatch ClickGalleryClose s = clickGalleryClose s"
| "dispatch (ClickGalleryItem i) s = clickGalleryItem i s"
| "dispatch (ClickThumbnail i) s = clickThumbnail i s"
| "dispatch ClickModalClose s = clickModalClose s"
| "dispatch ClickModalNext s = clickModalNext s"
| "dispatch ClickModalPrev s = clickModalPrev s"
| "dispatch ClickModalBackground s = clickModalBackground s"
| "dispatch (KeyDown key) s = keydown key s"
| "dispatch (ClickAnchor i) s = clickAnchor i s"

definition step :: "event \<Rightarrow> state \<Rightarrow> state" where
  "step ev s = (case dispatch ev s of Done s' \<Rightarrow> s' | Thrown err s' \<Rightarrow> emit (Uncaught err) s')"

fun run :: "event list \<Rightarrow> state \<Rightarrow> state" where
  "run [] s = s"
| "run (ev # evs) s = run evs (step ev s)"

text \<open>The state an outcome leaves behind, thrown or not.\<close>

fun stateOf :: "outcome \<Rightarrow> state" where
  "stateOf (Done s) = s"
| "stateOf (Thrown err s) = s"


section \<open>A concrete page\<close>

text \<open>
  A page with every element the script looks up, before the data has arrived; and
  small catalogs to load into it.
\<close>

definition demoPage :: state where
  "demoPage =
     \<lparr>artData = \<lparr>heroImages = [], artworks = []\<rparr>,
      projectData = \<lparr>projects = []\<rparr>,
      displayedProjectCount = 6,
      currentLightboxIndex = Num 0,
      currentLightboxSource = [],
      codeGrid = Some [],
      loadMoreProjects = Some [],
      featuredArtGrid = Some [],
      viewAllArt = True,
      galleryModal = Some [''hidden''],
      galleryClose = True,
      fullGalleryGrid = Some [],
      imageModal = Some [''hidden''],
      modalImg = Some ([], []),
      thumbnailStrip = Some [],
      modalClose = True,
      modalPrev = True,
      modalNext = True,
      navbar = Some 64,
      bodyOverflow = [],
      anchors = [],
      heroText = 2,
      querySelector = (\<lambda>sel. if sel = ''#about'' then Inr (Some 800)
                             else if sel = ''#1x'' then Inl SyntaxError else Inr None),
      effects = []\<rparr>"

definition demoArtItem :: "string \<Rightarrow> artItem" where
  "demoArtItem name = \<lparr>art_image = name @ ''.png'', art_title = name, art_year = ''2024''\<rparr>"

definition demoArt :: artCatalog where
  "demoArt =
     \<lparr>heroImages = [demoArtItem ''A'', demoArtItem ''B'', demoArtItem ''C''],
      artworks = [demoArtItem ''D'', demoArtItem ''E'']\<rparr>"

definition demoProject :: project where
  "demoProject =
     \<lparr>proj_title = ''Site'', proj_description = ''A <b>site</b>'',
      proj_technologies = [''JS'', ''CSS''], proj_link = None\<rparr>"

definition demoProjects :: "nat \<Rightarrow> projectCatalog" where
  "demoProjects n = \<lparr>projects = replicate n demoProject\<rparr>"

definition demoLinks :: linksConfig where
  "demoLinks = \<lparr>github = ''https://github.com/u'', resume = ''resume.pdf''\<rparr>"

section \<open>Properties of the escaping\<close>

lemma escapeHtml_concat: "escapeHtml text = concat (map escapeChar text)"
  by (simp add: escapeHtml_def innerHTML_get_def textContent_set_def)

lemma escapeHtml_append: "escapeHtml (xs @ ys) = escapeHtml xs @ escapeHtml ys"
  by (simp add: escapeHtml_concat)

lemma escapeHtml_Cons: "escapeHtml (c # cs) = escapeChar c @ escapeHtml cs"
  by (simp add: escapeHtml_concat)

lemma escapeHtml_Nil: "escapeHtml [] = []"
  by (simp add: escapeHtml_concat)

lemma count_escapeChar_dq: "count_list (escapeChar c) dq = (if c = dq then 1 else 0)"
  by (simp add: escapeChar_def dq_def)

lemma count_escapeChar_sq: "count_list (escapeChar c) sq = (if c = sq then 1 else 0)"
  by (simp add: escapeChar_def sq_def)

lemma count_list_append: "count_list (xs @ ys) c = count_list xs c + count_list ys c"
  by (induction xs) auto

lemma count_escapeHtml_dq: "count_list (escapeHtml t) dq = count_list t dq"
  by (induction t) (auto simp: escapeHtml_Cons escapeHtml_Nil count_list_append count_escapeChar_dq)

lemma count_escapeHtml_sq: "count_list (escapeHtml t) sq = count_list t sq"
  by (induction t) (auto simp: escapeHtml_Cons escapeHtml_Nil count_list_append count_escapeChar_sq)

lemma escapeChar_no_angle: "CHR ''<'' \<notin> set (escapeChar c) \<and> CHR ''>'' \<notin> set (escapeChar c)"
  by (simp add: escapeChar_def)

lemma escapeHtml_no_angle: "CHR ''<'' \<notin> set (escapeHtml t) \<and> CHR ''>'' \<notin> set (escapeHtml t)"
  by (induction t) (auto simp: escapeHtml_Cons escapeHtml_Nil escapeChar_no_angle)

lemma count_imgTag_dq:
  "count_list (imgTag art) dq = 4 + count_list (art_image art) dq + count_list (art_title art) dq"
  by (simp add: imgTag_def count_list_append count_escapeHtml_dq[unfolded dq_def] dq_def)

text \<open>
  C9. For every input string, \<open>escapeHtml\<close> returns the text-node serialisation of the
  input: \<open>&\<close>, \<open><\<close> and \<open>>\<close> are replaced by character references (no \<open><\<close> or \<open>>\<close> is
  left in the result), while double and single quotes go through unchanged, as many in
  the result as in the input. So an image tag built from escaped values holds, besides
  the four quotes that delimit its two attribute values, every double quote of those
  values.
\<close>

theorem escapeHtml_text_node_serialization:
  "escapeHtml t = concat (map escapeChar t)
   \<and> escapeChar CHR ''&'' = ''&amp;''
   \<and> escapeChar CHR ''<'' = ''&lt;''
   \<and> escapeChar CHR ''>'' = ''&gt;''
   \<and> escapeChar dq = [dq] \<and> escapeChar sq = [sq]
   \<and> CHR ''<'' \<notin> set (escapeHtml t) \<and> CHR ''>'' \<notin> set (escapeHtml t)
   \<and> count_list (escapeHtml t) dq = count_list t dq
   \<and> count_list (escapeHtml t) sq = count_list t sq
   \<and> count_list (imgTag art) dq = 4 + count_list (art_image art) dq + count_list (art_title art) dq"
  using escapeHtml_no_angle[of t]
  by (simp add: escapeHtml_concat[symmetric] count_escapeHtml_dq count_escapeHtml_sq count_imgTag_dq)
     (simp add: escapeChar_def dq_def sq_def)

text \<open>
  C1. Rendered text fields show as literal text, also inside a quoted attribute. The
  script breaks this in the attribute positions: for an art item whose title holds a
  double quote, the image tag that the gallery and the thumbnail strip assign to
  \<open>innerHTML\<close> ends the \<open>alt\<close> value at that quote, and the rest of the title is markup
  (here an \<open>onerror\<close> attribute).
\<close>

theorem imgTag_title_quote_ends_attribute:
  \<open>imgTag \<lparr>art_image = ''a.png'', art_title = ''x" onerror="alert(1)'', art_year = ''2020''\<rparr>
     = ''<img src="a.png" alt="x" onerror="alert(1)">''\<close>
  by (simp add: imgTag_def escapeHtml_concat escapeChar_def)


section \<open>Properties of the project renderer\<close>

lemma forEach_appendCard_initial:
  "forEach (appendCard True c) ps k g = g @ map createCard ps"
proof (induction ps arbitrary: k g)
  case Nil
  then show ?case by simp
next
  case (Cons p ps)
  have "appendCard True c p k g = g @ [createCard p]"
    by (simp add: appendCard_def)
  then show ?case by (simp add: Cons.IH)
qed

lemma forEach_appendCard_incremental:
  "forEach (appendCard False c) ps k g
     = g @ map createCard (drop (nat (c - projectsPerLoad - int k)) ps)"
proof (induction ps arbitrary: k g)
  case Nil
  then show ?case by simp
next
  case (Cons p ps)
  show ?case
  proof (cases "int k \<ge> c - projectsPerLoad")
    case True
    then have "nat (c - projectsPerLoad - int k) = 0" "nat (c - projectsPerLoad - int (Suc k)) = 0"
      by simp_all
    moreover from True have "appendCard False c p k g = g @ [createCard p]"
      by (simp add: appendCard_def)
    ultimately show ?thesis by (simp add: Cons.IH)
  next
    case False
    then have "nat (c - projectsPerLoad - int k) = Suc (nat (c - projectsPerLoad - int (Suc k)))"
      by simp
    moreover from False have "appendCard False c p k g = g"
      by (simp add: appendCard_def)
    ultimately show ?thesis by (simp add: Cons.IH)
  qed
qed

lemma loadCodeProjects_grid_initial:
  "codeGrid s = Some g \<Longrightarrow>
   codeGrid (loadCodeProjects True s)
     = Some (map createCard (slice0 (projects (projectData s)) (displayedProjectCount s)))"
  by (simp add: loadCodeProjects_def Let_def emit_def setupScrollAnimations_def
        forEach_appendCard_initial split: option.splits)

lemma loadCodeProjects_grid_incremental:
  "codeGrid s = Some g \<Longrightarrow>
   codeGrid (loadCodeProjects False s)
     = Some (g @ map createCard
               (drop (nat (displayedProjectCount s - projectsPerLoad))
                  (slice0 (projects (projectData s)) (displayedProjectCount s))))"
  by (simp add: loadCodeProjects_def Let_def emit_def setupScrollAnimations_def
        forEach_appendCard_incremental split: option.splits)

lemma loadCodeProjects_button:
  "codeGrid s = Some g \<Longrightarrow> loadMoreProjects s = Some d \<Longrightarrow>
   loadMoreProjects (loadCodeProjects initial s)
     = Some (if displayedProjectCount s \<ge> int (length (projects (projectData s)))
             then ''none'' else ''block'')"
  by (simp add: loadCodeProjects_def Let_def emit_def setupScrollAnimations_def)

lemma loadCodeProjects_globals:
  "displayedProjectCount (loadCodeProjects initial s) = displayedProjectCount s"
  "projectData (loadCodeProjects initial s) = projectData s"
  "artData (loadCodeProjects initial s) = artData s"
  by (simp_all add: loadCodeProjects_def Let_def emit_def setupScrollAnimations_def
        split: option.splits)

lemma loadCodeProjects_presence:
  "(loadMoreProjects (loadCodeProjects initial s) = None) = (loadMoreProjects s = None)"
  "(codeGrid (loadCodeProjects initial s) = None) = (codeGrid s = None)"
  by (auto simp add: loadCodeProjects_def Let_def emit_def setupScrollAnimations_def
        split: option.splits)

section \<open>What the handlers leave alone\<close>

lemma markThumb_fields:
  "displayedProjectCount (markThumb c t k s) = displayedProjectCount s"
  "loadMoreProjects (markThumb c t k s) = loadMoreProjects s"
  "currentLightboxIndex (markThumb c t k s) = currentLightboxIndex s"
  "currentLightboxSource (markThumb c t k s) = currentLightboxSource s"
  "imageModal (markThumb c t k s) = imageModal s"
  "modalImg (markThumb c t k s) = modalImg s"
  by (simp_all add: markThumb_def emit_def)

lemma forEach_markThumb_fields:
  "displayedProjectCount (forEach (markThumb c) ts k s) = displayedProjectCount s"
  "loadMoreProjects (forEach (markThumb c) ts k s) = loadMoreProjects s"
  "currentLightboxIndex (forEach (markThumb c) ts k s) = currentLightboxIndex s"
  "currentLightboxSource (forEach (markThumb c) ts k s) = currentLightboxSource s"
  "imageModal (forEach (markThumb c) ts k s) = imageModal s"
  "modalImg (forEach (markThumb c) ts k s) = modalImg s"
  by (induction ts arbitrary: k s; simp add: markThumb_fields)+

lemma forEach_timeout_fields:
  "displayedProjectCount (forEach (\<lambda>el index acc. emit (SetTimeout index (index * 150 + 400)) acc) xs k s)
     = displayedProjectCount s"
  "loadMoreProjects (forEach (\<lambda>el index acc. emit (SetTimeout index (index * 150 + 400)) acc) xs k s)
     = loadMoreProjects s"
  "codeGrid (forEach (\<lambda>el index acc. emit (SetTimeout index (index * 150 + 400)) acc) xs k s)
     = codeGrid s"
  "projectData (forEach (\<lambda>el index acc. emit (SetTimeout index (index * 150 + 400)) acc) xs k s)
     = projectData s"
  by (induction xs arbitrary: k s; simp add: emit_def)+

lemma animateHero_fields:
  "displayedProjectCount (animateHero s) = displayedProjectCount s"
  "loadMoreProjects (animateHero s) = loadMoreProjects s"
  "codeGrid (animateHero s) = codeGrid s"
  "projectData (animateHero s) = projectData s"
  by (simp_all add: animateHero_def forEach_timeout_fields) (simp_all add: emit_def)

lemma loadFeaturedArt_fields:
  "displayedProjectCount (loadFeaturedArt s) = displayedProjectCount s"
  "loadMoreProjects (loadFeaturedArt s) = loadMoreProjects s"
  "codeGrid (loadFeaturedArt s) = codeGrid s"
  "projectData (loadFeaturedArt s) = projectData s"
  by (simp_all add: loadFeaturedArt_def Let_def emit_def setupScrollAnimations_def split: option.splits)

lemma updateLinks_fields:
  "displayedProjectCount (updateLinks l s) = displayedProjectCount s"
  "loadMoreProjects (updateLinks l s) = loadMoreProjects s"
  "codeGrid (updateLinks l s) = codeGrid s"
  "projectData (updateLinks l s) = projectData s"
  by (simp_all add: updateLinks_def Let_def emit_def)

lemma updateLightboxContent_fields:
  "displayedProjectCount (stateOf (updateLightboxContent s)) = displayedProjectCount s"
  "loadMoreProjects (stateOf (updateLightboxContent s)) = loadMoreProjects s"
  "currentLightboxIndex (stateOf (updateLightboxContent s)) = currentLightboxIndex s"
  "currentLightboxSource (stateOf (updateLightboxContent s)) = currentLightboxSource s"
  "imageModal (stateOf (updateLightboxContent s)) = imageModal s"
  by (simp_all add: updateLightboxContent_def Let_def forEach_markThumb_fields split: option.splits)

lemma generateThumbnails_fields:
  "displayedProjectCount (stateOf (generateThumbnails s)) = displayedProjectCount s"
  "loadMoreProjects (stateOf (generateThumbnails s)) = loadMoreProjects s"
  "currentLightboxIndex (stateOf (generateThumbnails s)) = currentLightboxIndex s"
  "currentLightboxSource (stateOf (generateThumbnails s)) = currentLightboxSource s"
  "imageModal (stateOf (generateThumbnails s)) = imageModal s"
  by (simp_all add: generateThumbnails_def split: option.splits)

lemma stateOf_andThen:
  "stateOf (andThen r f) = (case r of Done s \<Rightarrow> stateOf (f s) | Thrown e s \<Rightarrow> s)"
  by (cases r) simp_all

lemma openLightbox_pagination:
  "displayedProjectCount (stateOf (openLightbox src i s)) = displayedProjectCount s"
  "loadMoreProjects (stateOf (openLightbox src i s)) = loadMoreProjects s"
proof -
  have a: "displayedProjectCount (stateOf (andThen (updateLightboxContent t) generateThumbnails))
             = displayedProjectCount t" 
          "loadMoreProjects (stateOf (andThen (updateLightboxContent t) generateThumbnails))
             = loadMoreProjects t" for t
    using updateLightboxContent_fields(1,2)[of t]
    by (cases "updateLightboxContent t"; simp add: generateThumbnails_fields)+
  show "displayedProjectCount (stateOf (openLightbox src i s)) = displayedProjectCount s"
    "loadMoreProjects (stateOf (openLightbox src i s)) = loadMoreProjects s"
    by (simp_all add: openLightbox_def Let_def a split: option.splits)
qed

lemma closeLightbox_pagination:
  "displayedProjectCount (stateOf (closeLightbox s)) = displayedProjectCount s"
  "loadMoreProjects (stateOf (closeLightbox s)) = loadMoreProjects s"
  by (simp_all add: closeLightbox_def split: option.splits)

lemma nextImage_pagination:
  "displayedProjectCount (stateOf (nextImage e s)) = displayedProjectCount s"
  "loadMoreProjects (stateOf (nextImage e s)) = loadMoreProjects s"
  by (simp_all add: nextImage_def Let_def updateLightboxContent_fields emit_def)

lemma prevImage_pagination:
  "displayedProjectCount (stateOf (prevImage e s)) = displayedProjectCount s"
  "loadMoreProjects (stateOf (prevImage e s)) = loadMoreProjects s"
  by (simp_all add: prevImage_def Let_def updateLightboxContent_fields emit_def)

lemma keydown_pagination:
  "displayedProjectCount (stateOf (keydown key s)) = displayedProjectCount s"
  "loadMoreProjects (stateOf (keydown key s)) = loadMoreProjects s"
proof -
  have "displayedProjectCount (stateOf (keydown key s)) = displayedProjectCount s
      \<and> loadMoreProjects (stateOf (keydown key s)) = loadMoreProjects s"
  proof (cases "imageModal s")
    case None
    then show ?thesis by (simp add: keydown_def)
  next
    case (Some cl)
    show ?thesis
    proof (cases "classList_contains cl ''hidden''")
      case True
      with Some show ?thesis by (simp add: keydown_def)
    next
      case False
      consider "key = ''Escape''" | "key = ''ArrowRight''" | "key = ''ArrowLeft''"
        | "key \<noteq> ''Escape''" "key \<noteq> ''ArrowRight''" "key \<noteq> ''ArrowLeft''"
        by blast
      then show ?thesis
      proof cases
        case 1
        then have "keydown key s = closeLightbox s"
          using Some False by (cases "closeLightbox s") (simp_all add: keydown_def)
        then show ?thesis by (simp add: closeLightbox_pagination)
      next
        case 2
        then have "keydown key s = nextImage False s"
          using Some False by (cases "nextImage False s") (simp_all add: keydown_def)
        then show ?thesis by (simp add: nextImage_pagination)
      next
        case 3
        then have "keydown key s = prevImage False s"
          using Some False by (simp_all add: keydown_def)
        then show ?thesis by (simp add: prevImage_pagination)
      next
        case 4
        then have "keydown key s = Done s"
          using Some False by (simp_all add: keydown_def)
        then show ?thesis by simp
      qed
    qed
  qed
  then show "displayedProjectCount (stateOf (keydown key s)) = displayedProjectCount s"
    "loadMoreProjects (stateOf (keydown key s)) = loadMoreProjects s"
    by simp_all
qed

lemma loadData_pagination:
  "displayedProjectCount (loadData f s) = displayedProjectCount s"
  "(loadMoreProjects (loadData f s) = None) = (loadMoreProjects s = None)"
  by (simp_all add: loadData_def Let_def emit_def animateHero_fields loadFeaturedArt_fields
        loadCodeProjects_globals loadCodeProjects_presence updateLinks_fields
        split: fetched.splits sum.splits)

lemma clickLoadMore_count:
  "displayedProjectCount (clickLoadMore s)
     = (if loadMoreProjects s = None then displayedProjectCount s
        else displayedProjectCount s + 6)"
  by (simp add: clickLoadMore_def loadCodeProjects_globals projectsPerLoad_def split: option.splits)

lemma clickLoadMore_presence:
  "(loadMoreProjects (clickLoadMore s) = None) = (loadMoreProjects s = None)"
  by (simp add: clickLoadMore_def loadCodeProjects_presence split: option.splits)

lemma clickCard_pagination:
  "displayedProjectCount (clickCard i s) = displayedProjectCount s"
  "loadMoreProjects (clickCard i s) = loadMoreProjects s"
  by (simp_all add: clickCard_def emit_def split: option.splits)

lemma clickViewAll_pagination:
  "displayedProjectCount (stateOf (clickViewAll s)) = displayedProjectCount s"
  "loadMoreProjects (stateOf (clickViewAll s)) = loadMoreProjects s"
  by (simp_all add: clickViewAll_def Let_def split: option.splits)

lemma clickGalleryClose_pagination:
  "displayedProjectCount (stateOf (clickGalleryClose s)) = displayedProjectCount s"
  "loadMoreProjects (stateOf (clickGalleryClose s)) = loadMoreProjects s"
  by (simp_all add: clickGalleryClose_def split: option.splits)

lemma clickGalleryItem_pagination:
  "displayedProjectCount (stateOf (clickGalleryItem i s)) = displayedProjectCount s"
  "loadMoreProjects (stateOf (clickGalleryItem i s)) = loadMoreProjects s"
  by (simp_all add: clickGalleryItem_def openLightbox_pagination split: option.splits)

lemma clickThumbnail_pagination:
  "displayedProjectCount (stateOf (clickThumbnail i s)) = displayedProjectCount s"
  "loadMoreProjects (stateOf (clickThumbnail i s)) = loadMoreProjects s"
  by (simp_all add: clickThumbnail_def updateLightboxContent_fields emit_def)

lemma clickModal_pagination:
  "displayedProjectCount (stateOf (clickModalClose s)) = displayedProjectCount s"
  "loadMoreProjects (stateOf (clickModalClose s)) = loadMoreProjects s"
  "displayedProjectCount (stateOf (clickModalNext s)) = displayedProjectCount s"
  "loadMoreProjects (stateOf (clickModalNext s)) = loadMoreProjects s"
  "displayedProjectCount (stateOf (clickModalPrev s)) = displayedProjectCount s"
  "loadMoreProjects (stateOf (clickModalPrev s)) = loadMoreProjects s"
  "displayedProjectCount (stateOf (clickModalBackground s)) = displayedProjectCount s"
  "loadMoreProjects (stateOf (clickModalBackground s)) = loadMoreProjects s"
  by (simp_all add: clickModalClose_def clickModalNext_def clickModalPrev_def
        clickModalBackground_def closeLightbox_pagination nextImage_pagination
        prevImage_pagination split: option.splits)

lemma smoothScrollClick_pagination:
  "displayedProjectCount (stateOf (snd (smoothScrollClick h s))) = displayedProjectCount s"
  "loadMoreProjects (stateOf (snd (smoothScrollClick h s))) = loadMoreProjects s"
  by (simp_all add: smoothScrollClick_def Let_def emit_def split: option.splits sum.splits)

lemma clickAnchor_pagination:
  "displayedProjectCount (stateOf (clickAnchor i s)) = displayedProjectCount s"
  "loadMoreProjects (stateOf (clickAnchor i s)) = loadMoreProjects s"
  by (simp_all add: clickAnchor_def smoothScrollClick_pagination)

lemma step_stateOf:
  "displayedProjectCount (step ev s) = displayedProjectCount (stateOf (dispatch ev s))"
  "loadMoreProjects (step ev s) = loadMoreProjects (stateOf (dispatch ev s))"
  by (cases "dispatch ev s"; simp add: step_def emit_def)+

lemma step_count:
  "displayedProjectCount (step ev s)
     = (if ev = ClickLoadMore \<and> loadMoreProjects s \<noteq> None
        then displayedProjectCount s + 6 else displayedProjectCount s)"
  by (cases ev)
     (simp_all add: step_stateOf loadData_pagination clickLoadMore_count clickCard_pagination
        clickViewAll_pagination clickGalleryClose_pagination clickGalleryItem_pagination
        clickThumbnail_pagination clickModal_pagination keydown_pagination
        clickAnchor_pagination)

lemma step_presence:
  "(loadMoreProjects (step ev s) = None) = (loadMoreProjects s = None)"
  by (cases ev)
     (simp_all add: step_stateOf loadData_pagination clickLoadMore_presence clickCard_pagination
        clickViewAll_pagination clickGalleryClose_pagination clickGalleryItem_pagination
        clickThumbnail_pagination clickModal_pagination keydown_pagination
        clickAnchor_pagination)

lemma run_presence:
  "(loadMoreProjects (run evs s) = None) = (loadMoreProjects s = None)"
  by (induction evs arbitrary: s) (simp_all add: step_presence)

lemma run_count:
  "loadMoreProjects s \<noteq> None \<Longrightarrow>
   displayedProjectCount (run evs s)
     = displayedProjectCount s + 6 * int (count_list evs ClickLoadMore)"
proof (induction evs arbitrary: s)
  case Nil
  then show ?case by simp
next
  case (Cons ev evs)
  from Cons.prems have "loadMoreProjects (step ev s) \<noteq> None"
    by (simp add: step_presence)
  from Cons.IH[OF this] Cons.prems show ?case
    by (simp add: step_count)
qed

lemma run_monotone: "displayedProjectCount s \<le> displayedProjectCount (run evs s)"
proof (induction evs arbitrary: s)
  case Nil
  then show ?case by simp
next
  case (Cons ev evs)
  have "displayedProjectCount s \<le> displayedProjectCount (step ev s)"
    by (simp add: step_count)
  also have "\<dots> \<le> displayedProjectCount (run evs (step ev s))"
    by (rule Cons.IH)
  finally show ?case by simp
qed

section \<open>Pagination\<close>

lemma slice0_nonneg: "0 \<le> n \<Longrightarrow> slice0 xs n = take (nat n) xs"
  by (simp add: slice0_def)

lemma take_append_drop_take:
  "a \<le> b \<Longrightarrow> take a xs @ drop a (take b xs) = take b xs"
proof -
  assume "a \<le> b"
  then have "take a xs = take a (take b xs)" by (simp add: min_def)
  then show ?thesis by (metis append_take_drop_id)
qed

lemma loadData_success_pagination:
  assumes "codeGrid s = Some g" "loadMoreProjects s = Some d" "0 \<le> displayedProjectCount s"
  shows "codeGrid (loadData (Resolved (Inr art) (Inr proj) (Inr links)) s)
           = Some (map createCard (take (nat (displayedProjectCount s)) (projects proj)))"
    and "loadMoreProjects (loadData (Resolved (Inr art) (Inr proj) (Inr links)) s)
           = Some (if displayedProjectCount s \<ge> int (length (projects proj))
                   then ''none'' else ''block'')"
    and "projectData (loadData (Resolved (Inr art) (Inr proj) (Inr links)) s) = proj"
proof -
  let ?t = "updateLinks links (s\<lparr>artData := art, projectData := proj\<rparr>)"
  have t: "codeGrid ?t = Some g" "loadMoreProjects ?t = Some d"
    "displayedProjectCount ?t = displayedProjectCount s" "projectData ?t = proj"
    using assms by (simp_all add: updateLinks_fields)
  have l: "loadData (Resolved (Inr art) (Inr proj) (Inr links)) s
             = animateHero (loadFeaturedArt (loadCodeProjects True ?t))"
    by (simp add: loadData_def Let_def)
  show "codeGrid (loadData (Resolved (Inr art) (Inr proj) (Inr links)) s)
           = Some (map createCard (take (nat (displayedProjectCount s)) (projects proj)))"
    using assms(3) t
    by (simp add: l animateHero_fields loadFeaturedArt_fields
          loadCodeProjects_grid_initial[OF t(1)] slice0_nonneg)
  show "loadMoreProjects (loadData (Resolved (Inr art) (Inr proj) (Inr links)) s)
           = Some (if displayedProjectCount s \<ge> int (length (projects proj))
                   then ''none'' else ''block'')"
    using t
    by (simp add: l animateHero_fields loadFeaturedArt_fields
          loadCodeProjects_button[OF t(1) t(2)])
  show "projectData (loadData (Resolved (Inr art) (Inr proj) (Inr links)) s) = proj"
    using t by (simp add: l animateHero_fields loadFeaturedArt_fields loadCodeProjects_globals)
qed

lemma clickLoadMore_paginated:
  assumes "codeGrid s = Some (map createCard (take (nat (displayedProjectCount s)) (projects (projectData s))))"
    and "loadMoreProjects s = Some d" and "0 \<le> displayedProjectCount s"
  shows "codeGrid (clickLoadMore s)
           = Some (map createCard (take (nat (displayedProjectCount s + 6)) (projects (projectData s))))"
    and "loadMoreProjects (clickLoadMore s)
           = Some (if displayedProjectCount s + 6 \<ge> int (length (projects (projectData s)))
                   then ''none'' else ''block'')"
    and "projectData (clickLoadMore s) = projectData s"
    and "displayedProjectCount (clickLoadMore s) = displayedProjectCount s + 6"
proof -
  let ?t = "s\<lparr>displayedProjectCount := displayedProjectCount s + projectsPerLoad\<rparr>"
  let ?ps = "projects (projectData s)"
  have c: "clickLoadMore s = loadCodeProjects False ?t"
    using assms(2) by (simp add: clickLoadMore_def)
  have g: "codeGrid ?t = Some (map createCard (take (nat (displayedProjectCount s)) ?ps))"
    using assms(1) by simp
  have b: "loadMoreProjects ?t = Some d" using assms(2) by simp
  have "take (nat (displayedProjectCount s)) ?ps
          @ drop (nat (displayedProjectCount s)) (take (nat (displayedProjectCount s + 6)) ?ps)
        = take (nat (displayedProjectCount s + 6)) ?ps"
    using assms(3) by (intro take_append_drop_take) simp
  then have "map createCard (take (nat (displayedProjectCount s)) ?ps)
          @ map createCard (drop (nat (displayedProjectCount s)) (take (nat (displayedProjectCount s + 6)) ?ps))
        = map createCard (take (nat (displayedProjectCount s + 6)) ?ps)"
    by (metis map_append)
  moreover have "codeGrid (loadCodeProjects False ?t)
      = Some (map createCard (take (nat (displayedProjectCount s)) ?ps)
              @ map createCard (drop (nat (displayedProjectCount s))
                  (take (nat (displayedProjectCount s + 6)) ?ps)))"
    using assms(3) loadCodeProjects_grid_incremental[OF g]
    by (simp add: slice0_nonneg projectsPerLoad_def)
  ultimately show "codeGrid (clickLoadMore s)
           = Some (map createCard (take (nat (displayedProjectCount s + 6)) ?ps))"
    by (simp add: c)
  show "loadMoreProjects (clickLoadMore s)
           = Some (if displayedProjectCount s + 6 \<ge> int (length ?ps) then ''none'' else ''block'')"
    using loadCodeProjects_button[OF g b, of False] by (simp add: c projectsPerLoad_def)
  show "projectData (clickLoadMore s) = projectData s"
    by (simp add: c loadCodeProjects_globals)
  show "displayedProjectCount (clickLoadMore s) = displayedProjectCount s + 6"
    by (simp add: c loadCodeProjects_globals projectsPerLoad_def)
qed

lemma clicks_paginated:
  assumes "codeGrid s = Some (map createCard (take (nat (displayedProjectCount s)) (projects (projectData s))))"
    and "loadMoreProjects s = Some (if displayedProjectCount s \<ge> int (length (projects (projectData s)))
                   then ''none'' else ''block'')" and "0 \<le> displayedProjectCount s"
  shows "codeGrid (run (replicate m ClickLoadMore) s)
           = Some (map createCard (take (nat (displayedProjectCount s + 6 * int m)) (projects (projectData s))))
       \<and> loadMoreProjects (run (replicate m ClickLoadMore) s)
           = Some (if displayedProjectCount s + 6 * int m \<ge> int (length (projects (projectData s)))
                   then ''none'' else ''block'')
       \<and> projectData (run (replicate m ClickLoadMore) s) = projectData s
       \<and> displayedProjectCount (run (replicate m ClickLoadMore) s) = displayedProjectCount s + 6 * int m"
  using assms
proof (induction m arbitrary: s)
  case 0
  then show ?case by simp
next
  case (Suc m)
  let ?t = "clickLoadMore s"
  note step = clickLoadMore_paginated[OF Suc.prems(1) Suc.prems(2) Suc.prems(3)]
  have t1: "codeGrid ?t = Some (map createCard (take (nat (displayedProjectCount ?t)) (projects (projectData ?t))))"
    by (simp add: step)
  have t2: "loadMoreProjects ?t = Some (if displayedProjectCount ?t \<ge> int (length (projects (projectData ?t)))
                   then ''none'' else ''block'')"
    by (simp add: step)
  have t3: "0 \<le> displayedProjectCount ?t"
    using Suc.prems(3) by (simp add: step)
  have r: "run (replicate (Suc m) ClickLoadMore) s = run (replicate m ClickLoadMore) ?t"
    by (simp add: step_def)
  have e: "displayedProjectCount ?t + 6 * int m = displayedProjectCount s + 6 * int (Suc m)"
    by (simp add: step)
  show ?case
    using Suc.IH[OF t1 t2 t3] unfolding r e by (simp add: step)
qed

lemma clickLoadMore_grid_presence:
  "(codeGrid (clickLoadMore s) = None) = (codeGrid s = None)"
  by (simp add: clickLoadMore_def loadCodeProjects_presence split: option.splits)

lemma early_clicks:
  "codeGrid s \<noteq> None \<Longrightarrow> loadMoreProjects s \<noteq> None \<Longrightarrow>
   codeGrid (run (replicate k ClickLoadMore) s) \<noteq> None
   \<and> loadMoreProjects (run (replicate k ClickLoadMore) s) \<noteq> None
   \<and> displayedProjectCount (run (replicate k ClickLoadMore) s) = displayedProjectCount s + 6 * int k"
proof (induction k arbitrary: s)
  case 0
  then show ?case by simp
next
  case (Suc k)
  have "codeGrid (clickLoadMore s) \<noteq> None" "loadMoreProjects (clickLoadMore s) \<noteq> None"
    using Suc.prems by (simp_all add: clickLoadMore_grid_presence clickLoadMore_presence)
  from Suc.IH[OF this] Suc.prems(2) show ?case
    by (simp add: step_def clickLoadMore_count)
qed

lemma run_append: "run (xs @ ys) s = run ys (run xs s)"
  by (induction xs arbitrary: s) simp_all

text \<open>
  C2. On a page that has the project grid and the load-more button, let the catalog
  arrive (after \<open>k\<close> early activations of the button, normally none) and let the button
  be activated \<open>m\<close> more times. With \<open>N = k + m\<close> activations, \<open>displayedProjectCount\<close>
  is \<open>6 + 6N\<close>; the grid holds the cards of the first \<open>min(displayedProjectCount, total)\<close>
  projects; and the button's display is \<open>none\<close> exactly when the number of cards is the
  total, which is exactly when \<open>displayedProjectCount \<ge> total\<close>, and \<open>block\<close> otherwise.
\<close>

theorem pagination_after_clicks:
  assumes "displayedProjectCount s0 = 6" and "codeGrid s0 = Some g0"
    and "loadMoreProjects s0 = Some d0"
    and "s = run (replicate k ClickLoadMore
                   @ DataArrives (Resolved (Inr art) (Inr proj) (Inr links))
                   # replicate m ClickLoadMore) s0"
  shows "displayedProjectCount s = 6 + 6 * int (k + m)
    \<and> (\<exists>g. codeGrid s = Some g
           \<and> g = map createCard (take (nat (displayedProjectCount s)) (projects proj))
           \<and> int (length g) = min (displayedProjectCount s) (int (length (projects proj)))
           \<and> loadMoreProjects s
               = Some (if length g = length (projects proj) then ''none'' else ''block''))
    \<and> loadMoreProjects s
         = Some (if displayedProjectCount s \<ge> int (length (projects proj))
                 then ''none'' else ''block'')"
proof -
  let ?a = "run (replicate k ClickLoadMore) s0"
  let ?b = "loadData (Resolved (Inr art) (Inr proj) (Inr links)) ?a"
  have a: "codeGrid ?a \<noteq> None" "loadMoreProjects ?a \<noteq> None"
    "displayedProjectCount ?a = 6 + 6 * int k"
    using early_clicks[of s0 k] assms(1-3) by simp_all
  then obtain ga da where ga: "codeGrid ?a = Some ga" and da: "loadMoreProjects ?a = Some da"
    by blast
  have a0: "0 \<le> displayedProjectCount ?a" using a(3) by simp
  note ld = loadData_success_pagination[OF ga da a0, of art proj links]
  have bc: "displayedProjectCount ?b = 6 + 6 * int k"
    by (simp add: loadData_pagination a(3))
  have b1: "codeGrid ?b = Some (map createCard (take (nat (displayedProjectCount ?b)) (projects (projectData ?b))))"
    by (simp add: ld bc a(3))
  have b2: "loadMoreProjects ?b = Some (if displayedProjectCount ?b \<ge> int (length (projects (projectData ?b)))
                   then ''none'' else ''block'')"
    by (simp add: ld bc a(3))
  have b3: "0 \<le> displayedProjectCount ?b" by (simp add: bc)
  have s: "s = run (replicate m ClickLoadMore) ?b"
    by (simp add: assms(4) run_append step_def)
  note fin = clicks_paginated[OF b1 b2 b3, of m, folded s]
  have c: "displayedProjectCount s = 6 + 6 * int (k + m)"
    using fin by (simp add: bc)
  have p: "projectData ?b = proj" by (simp add: ld)
  have g: "codeGrid s = Some (map createCard (take (nat (displayedProjectCount s)) (projects proj)))"
    using fin c by (simp add: bc p add.assoc)
  have d: "loadMoreProjects s = Some (if displayedProjectCount s \<ge> int (length (projects proj))
                 then ''none'' else ''block'')"
    using fin c by (simp add: bc p add.assoc)
  have n: "0 \<le> displayedProjectCount s" by (simp add: c)
  have len: "int (length (map createCard (take (nat (displayedProjectCount s)) (projects proj))))
          = min (displayedProjectCount s) (int (length (projects proj)))"
    using n by (simp add: min_def) linarith
  have eq: "(length (map createCard (take (nat (displayedProjectCount s)) (projects proj))) = length (projects proj))
          = (displayedProjectCount s \<ge> int (length (projects proj)))"
    using n by (simp add: min_def) linarith
  show ?thesis
    using c g d len eq by simp
qed

section \<open>Which cards a render pass adds\<close>

lemma filter_range_upt:
  "filter (\<lambda>i. lo \<le> i \<and> i < hi) [0..<n] = [lo..<min hi n]"
proof (induction n)
  case 0
  then show ?case by simp
next
  case (Suc n)
  show ?case
  proof (cases "lo \<le> n \<and> n < hi")
    case True
    then have "min hi (Suc n) = Suc n" "min hi n = n" by simp_all
    with True have "[lo..<min hi (Suc n)] = [lo..<min hi n] @ [n]"
      by simp
    with True Suc show ?thesis by simp
  next
    case False
    then have "min hi (Suc n) = min hi n \<or> min hi n \<le> lo \<and> min hi (Suc n) \<le> lo"
      by (auto simp: min_def)
    then have "[lo..<min hi (Suc n)] = [lo..<min hi n]"
      by auto
    with False Suc show ?thesis by simp
  qed
qed

lemma drop_take_nth: "drop lo (take hi xs) = map (nth xs) [lo..<min hi (length xs)]"
proof (rule nth_equalityI)
  show "length (drop lo (take hi xs)) = length (map (nth xs) [lo..<min hi (length xs)])"
    by simp
next
  fix i
  assume "i < length (drop lo (take hi xs))"
  then have "lo + i < hi" "lo + i < length xs" by simp_all
  then show "drop lo (take hi xs) ! i = map (nth xs) [lo..<min hi (length xs)] ! i"
    by simp
qed

lemma indexed_range:
  assumes "0 \<le> c"
  shows "map (nth ps) (filter (\<lambda>i. a \<le> int i \<and> int i < min c (int (length ps))) [0..<length ps])
         = drop (nat a) (take (nat c) ps)"
proof -
  have "(\<lambda>i. a \<le> int i \<and> int i < min c (int (length ps))) = (\<lambda>i. nat a \<le> i \<and> i < nat c \<and> i < length ps)"
    using assms by (auto simp: fun_eq_iff)
  then have "filter (\<lambda>i. a \<le> int i \<and> int i < min c (int (length ps))) [0..<length ps]
      = filter (\<lambda>i. nat a \<le> i \<and> i < nat c) [0..<length ps]"
    by (auto intro: filter_cong)
  then show ?thesis
    by (simp add: filter_range_upt drop_take_nth)
qed

text \<open>
  C3. With the grid present and a non-negative counter, an incremental call of
  \<open>loadCodeProjects\<close> keeps the cards that are there and appends the cards of exactly the
  projects whose index is at least \<open>displayedProjectCount - 6\<close> and below
  \<open>min(displayedProjectCount, total)\<close>; a full reset replaces the cards by those of the
  projects with index below \<open>min(displayedProjectCount, total)\<close>. At the initial count 6
  the append predicate \<open>index \<ge> displayedProjectCount - projectsPerLoad\<close> admits every
  index, so the incremental branch on an empty grid and the full reset do the same.
\<close>

theorem loadCodeProjects_append_and_reset:
  assumes "codeGrid s = Some g" and "0 \<le> displayedProjectCount s"
  shows "codeGrid (loadCodeProjects False s)
           = Some (g @ map createCard
                        (map (nth (projects (projectData s)))
                           (filter (\<lambda>i. displayedProjectCount s - 6 \<le> int i
                                      \<and> int i < min (displayedProjectCount s)
                                                  (int (length (projects (projectData s)))))
                              [0..<length (projects (projectData s))])))
       \<and> codeGrid (loadCodeProjects True s)
           = Some (map createCard
                        (map (nth (projects (projectData s)))
                           (filter (\<lambda>i. int i < min (displayedProjectCount s)
                                                  (int (length (projects (projectData s)))))
                              [0..<length (projects (projectData s))])))
       \<and> projectsPerLoad = 6
       \<and> appendCard False 6 p index cards = appendCard True 6 p index cards
       \<and> loadCodeProjects False (s\<lparr>displayedProjectCount := 6, codeGrid := Some []\<rparr>)
           = loadCodeProjects True (s\<lparr>displayedProjectCount := 6\<rparr>)"
proof -
  let ?ps = "projects (projectData s)"
  let ?c = "displayedProjectCount s"
  have inc: "codeGrid (loadCodeProjects False s)
      = Some (g @ map createCard (drop (nat (?c - 6)) (take (nat ?c) ?ps)))"
    using loadCodeProjects_grid_incremental[OF assms(1)] assms(2)
    by (simp add: slice0_nonneg projectsPerLoad_def)
  have ini: "codeGrid (loadCodeProjects True s) = Some (map createCard (drop (nat 0) (take (nat ?c) ?ps)))"
    using loadCodeProjects_grid_initial[OF assms(1)] assms(2)
    by (simp add: slice0_nonneg)
  have r1: "map (nth ?ps) (filter (\<lambda>i. ?c - 6 \<le> int i \<and> int i < min ?c (int (length ?ps))) [0..<length ?ps])
      = drop (nat (?c - 6)) (take (nat ?c) ?ps)"
    by (rule indexed_range[OF assms(2)])
  have r2: "map (nth ?ps) (filter (\<lambda>i. int i < min ?c (int (length ?ps))) [0..<length ?ps])
      = drop (nat 0) (take (nat ?c) ?ps)"
    using indexed_range[OF assms(2), of ?ps 0] by simp
  have p: "appendCard False 6 p index cards = appendCard True 6 p index cards"
    by (simp add: appendCard_def projectsPerLoad_def)
  have e: "loadCodeProjects False (s\<lparr>displayedProjectCount := 6, codeGrid := Some []\<rparr>)
           = loadCodeProjects True (s\<lparr>displayedProjectCount := 6\<rparr>)"
    using assms(1)
    by (simp add: loadCodeProjects_def Let_def emit_def setupScrollAnimations_def
          forEach_appendCard_initial forEach_appendCard_incremental projectsPerLoad_def
          split: option.splits)
  show ?thesis
    unfolding r1 r2 using inc ini p e by (simp add: projectsPerLoad_def)
qed

theorem pagination_after_clicks_witness:
  "displayedProjectCount demoPage = 6 \<and> codeGrid demoPage = Some []
   \<and> loadMoreProjects demoPage = Some []
   \<and> displayedProjectCount
        (run [DataArrives (Resolved (Inr demoArt) (Inr (demoProjects 10)) (Inr demoLinks)),
              ClickLoadMore] demoPage) = 12
   \<and> codeGrid
        (run [DataArrives (Resolved (Inr demoArt) (Inr (demoProjects 10)) (Inr demoLinks)),
              ClickLoadMore] demoPage) = Some (replicate 10 (createCard demoProject))
   \<and> loadMoreProjects
        (run [DataArrives (Resolved (Inr demoArt) (Inr (demoProjects 10)) (Inr demoLinks)),
              ClickLoadMore] demoPage) = Some ''none''"
proof -
  have h: "displayedProjectCount demoPage = 6" "codeGrid demoPage = Some []"
    "loadMoreProjects demoPage = Some []"
    by (simp_all add: demoPage_def)
  show ?thesis
    using h pagination_after_clicks[OF h refl, of 0 demoArt "demoProjects 10" demoLinks 1]
    by (simp add: demoProjects_def)
qed

theorem loadCodeProjects_append_and_reset_witness:
  "codeGrid (demoPage\<lparr>projectData := demoProjects 8, displayedProjectCount := 12\<rparr>) = Some []
   \<and> (0::int) \<le> displayedProjectCount (demoPage\<lparr>projectData := demoProjects 8, displayedProjectCount := 12\<rparr>)
   \<and> codeGrid (loadCodeProjects False
         (demoPage\<lparr>projectData := demoProjects 8, displayedProjectCount := 12\<rparr>))
       = Some (replicate 2 (createCard demoProject))
   \<and> codeGrid (loadCodeProjects True
         (demoPage\<lparr>projectData := demoProjects 8, displayedProjectCount := 12\<rparr>))
       = Some (replicate 8 (createCard demoProject))"
proof -
  let ?s = "demoPage\<lparr>projectData := demoProjects 8, displayedProjectCount := 12\<rparr>"
  have h: "codeGrid ?s = Some []" "0 \<le> displayedProjectCount ?s"
    by (simp_all add: demoPage_def)
  have u: "[0..<8] = [0,1,2,3,4,5,6,7::nat]" by code_simp
  show ?thesis
    using h loadCodeProjects_append_and_reset[OF h]
    by (simp add: demoProjects_def u) (simp add: eval_nat_numeral)
qed

section \<open>The pagination counter\<close>

lemma clickLoadMore_projectData: "projectData (clickLoadMore s) = projectData s"
  by (simp add: clickLoadMore_def loadCodeProjects_globals split: option.splits)

text \<open>
  C4, as stated, fails in its last part: the counter is not bounded by the number of
  projects. With ten projects loaded, one activation of the load-more button (which is
  shown, since 6 < 10) leaves the counter at 12.
\<close>

theorem displayedCount_exceeds_total:
  "\<not> displayedProjectCount
        (run [DataArrives (Resolved (Inr demoArt) (Inr (demoProjects 10)) (Inr demoLinks)),
              ClickLoadMore] demoPage)
      \<le> int (length (projects (projectData
        (run [DataArrives (Resolved (Inr demoArt) (Inr (demoProjects 10)) (Inr demoLinks)),
              ClickLoadMore] demoPage))))"
proof -
  let ?evs = "[DataArrives (Resolved (Inr demoArt) (Inr (demoProjects 10)) (Inr demoLinks)),
              ClickLoadMore]"
  have b: "loadMoreProjects demoPage \<noteq> None" by (simp add: demoPage_def)
  have "displayedProjectCount (run ?evs demoPage) = 12"
    using run_count[OF b, of ?evs] by (simp add: demoPage_def)
  moreover have "projectData (run ?evs demoPage) = demoProjects 10"
  proof -
    have "codeGrid demoPage = Some []" "loadMoreProjects demoPage = Some []"
      "0 \<le> displayedProjectCount demoPage"
      by (simp_all add: demoPage_def)
    from loadData_success_pagination(3)[OF this]
    show ?thesis by (simp add: step_def clickLoadMore_projectData)
  qed
  ultimately show ?thesis by (simp add: demoProjects_def)
qed

text \<open>
  C4, amended. The counter starts at 6; each activation of the load-more button adds 6,
  so after any sequence of events it is 6 plus 6 times the number of activations in it;
  and it never decreases: whatever events follow, the counter is at least what it was.
  No bound by the number of projects is claimed.
\<close>

theorem displayedCount_counts_activations:
  assumes "initial_globals s0"
  shows "displayedProjectCount s0 = 6
    \<and> displayedProjectCount (run evs s0) \<le> displayedProjectCount (run (evs @ evs') s0)
    \<and> (loadMoreProjects s0 \<noteq> None \<longrightarrow>
         displayedProjectCount (step ClickLoadMore (run evs s0))
           = displayedProjectCount (run evs s0) + 6
         \<and> displayedProjectCount (run evs s0) = 6 + 6 * int (count_list evs ClickLoadMore))"
proof -
  have i: "displayedProjectCount s0 = 6"
    using assms by (simp add: initial_globals_def)
  have m: "displayedProjectCount (run evs s0) \<le> displayedProjectCount (run (evs @ evs') s0)"
    by (simp add: run_append run_monotone)
  have "displayedProjectCount (step ClickLoadMore (run evs s0))
           = displayedProjectCount (run evs s0) + 6
         \<and> displayedProjectCount (run evs s0) = 6 + 6 * int (count_list evs ClickLoadMore)"
    if b: "loadMoreProjects s0 \<noteq> None"
  proof -
    from b have "loadMoreProjects (run evs s0) \<noteq> None" by (simp add: run_presence)
    then show ?thesis using run_count[OF b, of evs] i by (simp add: step_count)
  qed
  with i m show ?thesis by blast
qed

theorem displayedCount_counts_activations_witness:
  "initial_globals demoPage \<and> loadMoreProjects demoPage \<noteq> None
   \<and> displayedProjectCount demoPage = 6
   \<and> displayedProjectCount (run [KeyDown ''Escape'', ClickLoadMore] demoPage) = 12
   \<and> displayedProjectCount (run [KeyDown ''Escape'', ClickLoadMore] demoPage)
       \<le> displayedProjectCount (run ([KeyDown ''Escape'', ClickLoadMore] @ [ClickViewAll, ClickLoadMore]) demoPage)
   \<and> displayedProjectCount (step ClickLoadMore (run [KeyDown ''Escape'', ClickLoadMore] demoPage)) = 18"
proof -
  have h: "initial_globals demoPage" by (simp add: initial_globals_def demoPage_def)
  have b: "loadMoreProjects demoPage \<noteq> None" by (simp add: demoPage_def)
  show ?thesis
    using h b displayedCount_counts_activations[OF h, of "[KeyDown ''Escape'', ClickLoadMore]" "[ClickViewAll, ClickLoadMore]"]
    by simp
qed


section \<open>Failure while loading\<close>

text \<open>
  C10, as stated, fails where the failing parse is that of \<open>links.json\<close>: by then
  \<open>projectData\<close> has been replaced too, it does not keep its previous value.
\<close>

theorem loadData_links_failure_replaces_projects:
  "projectData (loadData (Resolved (Inr demoArt) (Inr (demoProjects 10))
                   (Inl (JsonError ''links.json''))) demoPage)
     \<noteq> projectData demoPage"
  by (simp add: loadData_def emit_def demoPage_def demoProjects_def)

text \<open>
  C10, amended. When the three fetches resolve and \<open>art.json\<close> parses: if
  \<open>project.json\<close> fails to parse, \<open>artData\<close> has been replaced and \<open>projectData\<close> keeps its
  previous value; if \<open>links.json\<close> fails to parse, \<open>artData\<close> and \<open>projectData\<close> have both
  been replaced. In both cases nothing else of the state changes and the log gains the
  console error only, so none of \<open>updateLinks\<close>, \<open>loadCodeProjects\<close>, \<open>loadFeaturedArt\<close> and
  \<open>animateHero\<close> was entered.
\<close>

theorem loadData_later_parse_failure:
  "loadData (Resolved (Inr art) (Inl err) linksJson) s
     = emit (ConsoleError err) (s\<lparr>artData := art\<rparr>)
   \<and> projectData (loadData (Resolved (Inr art) (Inl err) linksJson) s) = projectData s
   \<and> loadData (Resolved (Inr art) (Inr proj) (Inl err)) s
     = emit (ConsoleError err) (s\<lparr>artData := art, projectData := proj\<rparr>)
   \<and> projectData (loadData (Resolved (Inr art) (Inr proj) (Inl err)) s) = proj
   \<and> artData (loadData (Resolved (Inr art) (Inl err) linksJson) s) = art
   \<and> artData (loadData (Resolved (Inr art) (Inr proj) (Inl err)) s) = art
   \<and> effects (loadData (Resolved (Inr art) (Inl err) linksJson) s)
       = effects s @ [ConsoleError err]
   \<and> effects (loadData (Resolved (Inr art) (Inr proj) (Inl err)) s)
       = effects s @ [ConsoleError err]"
  by (simp add: loadData_def emit_def)

section \<open>Smooth scroll\<close>

text \<open>
  C8, as stated, fails in "default navigation suppressed only when a concrete target
  exists": for \<open>#missing\<close>, which no element answers to, the listener has called
  \<open>preventDefault\<close>.
\<close>

theorem smoothScroll_suppresses_without_target:
  "querySelector demoPage ''#missing'' = Inr None
   \<and> fst (smoothScrollClick (Some ''#missing'') demoPage)"
  by (simp add: smoothScrollClick_def startsWith_def demoPage_def)

text \<open>
  C8, amended. A missing or empty href and one that does not start with \<open>#\<close> are
  ignored, the default left alone. An href that is \<open>#\<close> alone is ignored after the
  default has been suppressed. For every href starting with \<open>#\<close> the default is
  suppressed, whether or not a target exists; so the default is suppressed exactly when
  the href starts with \<open>#\<close>. For such an href other than \<open>#\<close> alone: without a target
  nothing else happens; with one, the page is scrolled smoothly to the target's
  \<open>offsetTop\<close> less the height of the navigation bar (0 when the bar is absent); and when
  the href is not a selector the document accepts, the lookup throws after the default
  has been suppressed and nothing is scrolled.
\<close>

theorem smoothScrollClick_cases:
  "(href = None \<or> href = Some [] \<or> (\<exists>t. href = Some t \<and> \<not> startsWith t ''#'')
      \<longrightarrow> smoothScrollClick href s = (False, Done s))
   \<and> smoothScrollClick (Some ''#'') s = (True, Done s)
   \<and> fst (smoothScrollClick href s)
       = (case href of None \<Rightarrow> False | Some t \<Rightarrow> startsWith t ''#'')
   \<and> (startsWith h ''#'' \<and> h \<noteq> ''#'' \<and> querySelector s h = Inr None
      \<longrightarrow> smoothScrollClick (Some h) s = (True, Done s))
   \<and> (startsWith h' ''#'' \<and> h' \<noteq> ''#'' \<and> querySelector s h' = Inr (Some offsetTop)
      \<longrightarrow> smoothScrollClick (Some h') s
          = (True, Done (emit (ScrollTo (offsetTop - (case navbar s of None \<Rightarrow> 0 | Some n \<Rightarrow> n)) ''smooth'') s)))
   \<and> (startsWith h'' ''#'' \<and> h'' \<noteq> ''#'' \<and> querySelector s h'' = Inl err
      \<longrightarrow> smoothScrollClick (Some h'') s = (True, Thrown err s))"
proof -
  have ignored: "smoothScrollClick href s = (False, Done s)"
    if "href = None \<or> href = Some [] \<or> (\<exists>t. href = Some t \<and> \<not> startsWith t ''#'')"
    using that by (auto simp: smoothScrollClick_def split: option.splits)
  have bare: "smoothScrollClick (Some ''#'') s = (True, Done s)"
    by (simp add: smoothScrollClick_def startsWith_def)
  have suppressed: "fst (smoothScrollClick href s)
       = (case href of None \<Rightarrow> False | Some t \<Rightarrow> startsWith t ''#'')"
    by (auto simp: smoothScrollClick_def startsWith_def Let_def split: option.splits sum.splits)
  have missing: "smoothScrollClick (Some h) s = (True, Done s)"
    if "startsWith h ''#'' \<and> h \<noteq> ''#'' \<and> querySelector s h = Inr None"
    using that by (auto simp: smoothScrollClick_def startsWith_def)
  have found: "smoothScrollClick (Some h') s
          = (True, Done (emit (ScrollTo (offsetTop - (case navbar s of None \<Rightarrow> 0 | Some n \<Rightarrow> n)) ''smooth'') s))"
    if "startsWith h' ''#'' \<and> h' \<noteq> ''#'' \<and> querySelector s h' = Inr (Some offsetTop)"
    using that by (auto simp: smoothScrollClick_def startsWith_def Let_def split: option.splits)
  have thrown: "smoothScrollClick (Some h'') s = (True, Thrown err s)"
    if "startsWith h'' ''#'' \<and> h'' \<noteq> ''#'' \<and> querySelector s h'' = Inl err"
    using that by (auto simp: smoothScrollClick_def startsWith_def)
  from ignored bare suppressed missing found thrown show ?thesis by blast
qed

theorem smoothScrollClick_cases_witness:
  "\<not> startsWith ''about'' ''#''
   \<and> smoothScrollClick (Some ''about'') demoPage = (False, Done demoPage)
   \<and> \<not> fst (smoothScrollClick (Some ''about'') demoPage)
   \<and> startsWith ''#missing'' ''#'' \<and> ''#missing'' \<noteq> ''#''
   \<and> querySelector demoPage ''#missing'' = Inr None
   \<and> smoothScrollClick (Some ''#missing'') demoPage = (True, Done demoPage)
   \<and> startsWith ''#about'' ''#'' \<and> ''#about'' \<noteq> ''#''
   \<and> querySelector demoPage ''#about'' = Inr (Some 800)
   \<and> smoothScrollClick (Some ''#about'') demoPage
       = (True, Done (emit (ScrollTo 736 ''smooth'') demoPage))
   \<and> startsWith ''#1x'' ''#'' \<and> ''#1x'' \<noteq> ''#''
   \<and> querySelector demoPage ''#1x'' = Inl SyntaxError
   \<and> smoothScrollClick (Some ''#1x'') demoPage = (True, Thrown SyntaxError demoPage)"
proof -
  have h: "\<not> startsWith ''about'' ''#''" "startsWith ''#missing'' ''#''" "''#missing'' \<noteq> ''#''"
    "querySelector demoPage ''#missing'' = Inr None"
    "startsWith ''#about'' ''#''" "''#about'' \<noteq> ''#''"
    "querySelector demoPage ''#about'' = Inr (Some 800)" "navbar demoPage = Some 64"
    "startsWith ''#1x'' ''#''" "''#1x'' \<noteq> ''#''"
    "querySelector demoPage ''#1x'' = Inl SyntaxError"
    by (simp_all add: startsWith_def demoPage_def)
  show ?thesis
    using h smoothScrollClick_cases[of "Some ''about''" demoPage "''#missing''" "''#about''" 800
        "''#1x''" SyntaxError]
    by simp
qed


section \<open>Keys\<close>

text \<open>
  C7. While the lightbox is not open, a key press changes nothing, whatever the key.
  While it is open, Escape runs \<open>closeLightbox\<close> and leaves the lightbox closed, the
  right arrow runs \<open>nextImage\<close> and the left arrow \<open>prevImage\<close>.
\<close>

theorem keydown_only_while_open:
  "(\<not> lightboxOpen s \<longrightarrow> keydown key s = Done s \<and> step (KeyDown key) s = s)
   \<and> (lightboxOpen s \<longrightarrow>
        keydown ''Escape'' s = closeLightbox s
        \<and> \<not> lightboxOpen (stateOf (keydown ''Escape'' s))
        \<and> keydown ''ArrowRight'' s = nextImage False s
        \<and> keydown ''ArrowLeft'' s = prevImage False s)"
proof -
  have closed: "keydown key s = Done s \<and> step (KeyDown key) s = s" if "\<not> lightboxOpen s"
    using that by (simp add: lightboxOpen_def keydown_def step_def split: option.splits)
  have opened: "keydown ''Escape'' s = closeLightbox s
        \<and> \<not> lightboxOpen (stateOf (keydown ''Escape'' s))
        \<and> keydown ''ArrowRight'' s = nextImage False s
        \<and> keydown ''ArrowLeft'' s = prevImage False s" if o: "lightboxOpen s"
  proof -
    from o obtain cl where cl: "imageModal s = Some cl" "\<not> classList_contains cl ''hidden''"
      by (auto simp: lightboxOpen_def split: option.splits)
    have c: "closeLightbox s = Done (s\<lparr>imageModal := Some (classList_remove ''active'' (classList_add ''hidden'' cl)),
                  bodyOverflow := ''auto''\<rparr>)"
      using cl by (simp add: closeLightbox_def)
    have e: "keydown ''Escape'' s = closeLightbox s"
      using cl by (simp add: keydown_def c)
    have "\<not> lightboxOpen (stateOf (closeLightbox s))"
      by (simp add: c lightboxOpen_def classList_contains_def classList_remove_def classList_add_def)
    moreover have "keydown ''ArrowRight'' s = nextImage False s"
      using cl by (cases "nextImage False s") (simp_all add: keydown_def)
    moreover have "keydown ''ArrowLeft'' s = prevImage False s"
      using cl by (simp add: keydown_def)
    ultimately show ?thesis using e by simp
  qed
  from closed opened show ?thesis by blast
qed

theorem keydown_only_while_open_witness:
  "\<not> lightboxOpen demoPage \<and> keydown ''Escape'' demoPage = Done demoPage
   \<and> step (KeyDown ''ArrowRight'') demoPage = demoPage
   \<and> lightboxOpen (demoPage\<lparr>imageModal := Some [''active'']\<rparr>)
   \<and> keydown ''Escape'' (demoPage\<lparr>imageModal := Some [''active'']\<rparr>)
       = closeLightbox (demoPage\<lparr>imageModal := Some [''active'']\<rparr>)
   \<and> \<not> lightboxOpen (stateOf (keydown ''Escape'' (demoPage\<lparr>imageModal := Some [''active'']\<rparr>)))
   \<and> keydown ''ArrowRight'' (demoPage\<lparr>imageModal := Some [''active'']\<rparr>)
       = nextImage False (demoPage\<lparr>imageModal := Some [''active'']\<rparr>)"
proof -
  have h: "\<not> lightboxOpen demoPage" "lightboxOpen (demoPage\<lparr>imageModal := Some [''active'']\<rparr>)"
    by (simp_all add: lightboxOpen_def demoPage_def classList_contains_def)
  show ?thesis
    using h keydown_only_while_open[of demoPage "''Escape''"]
      keydown_only_while_open[of demoPage "''ArrowRight''"]
      keydown_only_while_open[of "demoPage\<lparr>imageModal := Some [''active'']\<rparr>" "''Escape''"]
    by (intro conjI; blast)
qed


section \<open>Lightbox navigation\<close>

lemma js_rem_nonneg: "0 \<le> a \<Longrightarrow> 0 < b \<Longrightarrow> js_rem (Num a) (Num b) = Num (a mod b)"
  by (cases "a = 0") simp_all

lemma markThumb_buttons:
  "modalNext (markThumb c t k s) = modalNext s"
  "modalPrev (markThumb c t k s) = modalPrev s"
  by (simp_all add: markThumb_def emit_def)

lemma forEach_markThumb_buttons:
  "modalNext (forEach (markThumb c) ts k s) = modalNext s"
  "modalPrev (forEach (markThumb c) ts k s) = modalPrev s"
  by (induction ts arbitrary: k s; simp add: markThumb_buttons)+

lemma updateLightboxContent_Done:
  assumes "js_index (currentLightboxSource s) (currentLightboxIndex s) = Some item"
    and "modalImg s \<noteq> None"
  shows "\<exists>s'. updateLightboxContent s = Done s'
      \<and> currentLightboxIndex s' = currentLightboxIndex s
      \<and> currentLightboxSource s' = currentLightboxSource s
      \<and> modalImg s' = Some (art_image item, art_title item)
      \<and> imageModal s' = imageModal s
      \<and> modalNext s' = modalNext s \<and> modalPrev s' = modalPrev s
      \<and> (thumbnailStrip s' = None) = (thumbnailStrip s = None)"
proof -
  let ?s1 = "s\<lparr>modalImg := Some (art_image item, art_title item)\<rparr>"
  let ?s' = "forEach (markThumb (currentLightboxIndex ?s1)) (thumbnails ?s1) 0 ?s1"
  have "updateLightboxContent s = Done ?s'"
    using assms by (auto simp: updateLightboxContent_def Let_def)
  moreover have "(thumbnailStrip (forEach (markThumb c) ts k t) = None) = (thumbnailStrip t = None)"
    for c ts k t
    by (induction ts arbitrary: k t) (simp_all add: markThumb_def emit_def)
  ultimately show ?thesis
    by (simp add: forEach_markThumb_fields forEach_markThumb_buttons)
qed

lemma nextImage_Done:
  assumes "currentLightboxIndex s = Num i" and "0 \<le> i"
    and "i < int (length (currentLightboxSource s))" and "modalImg s \<noteq> None"
  shows "\<exists>s'. nextImage e s = Done s'
      \<and> currentLightboxIndex s' = Num ((i + 1) mod int (length (currentLightboxSource s)))
      \<and> currentLightboxSource s' = currentLightboxSource s
      \<and> modalImg s' \<noteq> None \<and> modalNext s' = modalNext s \<and> modalPrev s' = modalPrev s"
proof -
  let ?L = "int (length (currentLightboxSource s))"
  let ?s0 = "if e then emit StopPropagation s else s"
  let ?t = "?s0\<lparr>currentLightboxIndex := Num ((i + 1) mod ?L)\<rparr>"
  have Lpos: "0 < ?L" using assms(2,3) by linarith
  have jr: "js_rem (Num (i + 1)) (Num ?L) = Num ((i + 1) mod ?L)"
    using assms(2) Lpos by (intro js_rem_nonneg) linarith+
  have n: "nextImage e s = updateLightboxContent ?t"
    using assms(1)
    by (simp add: nextImage_def Let_def sourceLength_def emit_def jr del: js_rem.simps)
  have r: "0 \<le> (i + 1) mod ?L" "(i + 1) mod ?L < ?L"
    using Lpos by simp_all
  have "js_index (currentLightboxSource ?t) (currentLightboxIndex ?t)
          = Some (currentLightboxSource s ! nat ((i + 1) mod ?L))"
    using r by (simp add: emit_def)
  moreover have "modalImg ?t \<noteq> None" using assms(4) by (simp add: emit_def)
  ultimately obtain s' where "updateLightboxContent ?t = Done s'"
      "currentLightboxIndex s' = currentLightboxIndex ?t"
      "currentLightboxSource s' = currentLightboxSource ?t"
      "modalImg s' \<noteq> None" "modalNext s' = modalNext ?t" "modalPrev s' = modalPrev ?t"
    using updateLightboxContent_Done[of ?t] by fastforce
  then show ?thesis unfolding n by (simp add: emit_def)
qed

lemma prevImage_Done:
  assumes "currentLightboxIndex s = Num i" and "0 \<le> i"
    and "i < int (length (currentLightboxSource s))" and "modalImg s \<noteq> None"
  shows "\<exists>s'. prevImage e s = Done s'
      \<and> currentLightboxIndex s'
          = Num ((i - 1 + int (length (currentLightboxSource s))) mod int (length (currentLightboxSource s)))
      \<and> currentLightboxSource s' = currentLightboxSource s
      \<and> modalImg s' \<noteq> None \<and> modalNext s' = modalNext s \<and> modalPrev s' = modalPrev s"
proof -
  let ?L = "int (length (currentLightboxSource s))"
  let ?s0 = "if e then emit StopPropagation s else s"
  let ?t = "?s0\<lparr>currentLightboxIndex := Num ((i - 1 + ?L) mod ?L)\<rparr>"
  have Lpos: "0 < ?L" using assms(2,3) by linarith
  have jr: "js_rem (Num (i - 1 + ?L)) (Num ?L) = Num ((i - 1 + ?L) mod ?L)"
    using assms(2) Lpos by (intro js_rem_nonneg) linarith+
  have n: "prevImage e s = updateLightboxContent ?t"
    using assms(1)
    by (simp add: prevImage_def Let_def sourceLength_def emit_def jr del: js_rem.simps)
  have r: "0 \<le> (i - 1 + ?L) mod ?L" "(i - 1 + ?L) mod ?L < ?L"
    using Lpos by simp_all
  have "js_index (currentLightboxSource ?t) (currentLightboxIndex ?t)
          = Some (currentLightboxSource s ! nat ((i - 1 + ?L) mod ?L))"
    using r by (simp add: emit_def)
  moreover have "modalImg ?t \<noteq> None" using assms(4) by (simp add: emit_def)
  ultimately obtain s' where "updateLightboxContent ?t = Done s'"
      "currentLightboxIndex s' = currentLightboxIndex ?t"
      "currentLightboxSource s' = currentLightboxSource ?t"
      "modalImg s' \<noteq> None" "modalNext s' = modalNext ?t" "modalPrev s' = modalPrev ?t"
    using updateLightboxContent_Done[of ?t] by fastforce
  then show ?thesis unfolding n by (simp add: emit_def)
qed

lemma next_clicks:
  assumes "currentLightboxIndex s = Num i" and "0 \<le> i"
    and "i < int (length (currentLightboxSource s))" and "modalImg s \<noteq> None" and "modalNext s"
  shows "currentLightboxIndex (run (replicate n ClickModalNext) s)
           = Num ((i + int n) mod int (length (currentLightboxSource s)))
       \<and> currentLightboxSource (run (replicate n ClickModalNext) s) = currentLightboxSource s"
  using assms
proof (induction n arbitrary: s i)
  case 0
  then show ?case by simp
next
  case (Suc n)
  let ?L = "int (length (currentLightboxSource s))"
  from nextImage_Done[OF Suc.prems(1-4), of True] obtain s' where
    s': "nextImage True s = Done s'" "currentLightboxIndex s' = Num ((i + 1) mod ?L)"
      "currentLightboxSource s' = currentLightboxSource s" "modalImg s' \<noteq> None"
      "modalNext s' = modalNext s"
    by blast
  have st: "step ClickModalNext s = s'"
    using Suc.prems(5) s'(1) by (simp add: step_def clickModalNext_def)
  have Lpos: "0 < ?L" using Suc.prems(2,3) by linarith
  have r: "0 \<le> (i + 1) mod ?L" "(i + 1) mod ?L < int (length (currentLightboxSource s'))"
    using Lpos s'(3) by simp_all
  have m: "modalNext s'" using s'(5) Suc.prems(5) by simp
  have "((i + 1) mod ?L + int n) mod ?L = ((i + 1) + int n) mod ?L"
    by (rule mod_add_left_eq)
  moreover have "(i + 1) + int n = i + int (Suc n)" by simp
  ultimately have "((i + 1) mod ?L + int n) mod ?L = (i + int (Suc n)) mod ?L"
    by (simp only:)
  with Suc.IH[OF s'(2) r s'(4) m] show ?case
    by (simp add: st s'(3))
qed

text \<open>
  C6. With the index \<open>i\<close> inside a source of length \<open>L\<close> (so \<open>L \<ge> 1\<close>) and the modal image
  present, \<open>nextImage\<close> returns and sets the index to \<open>(i + 1) mod L\<close>, \<open>prevImage\<close> returns
  and sets it to \<open>(i - 1 + L) mod L\<close>; both results are in \<open>[0, L)\<close>. The index goes round:
  \<open>n\<close> clicks on the next button give \<open>(i + n) mod L\<close>, and \<open>L\<close> of them give \<open>i\<close> again. For
  \<open>L = 1\<close> both operations give index 0.
\<close>

theorem lightbox_next_prev_cyclic:
  assumes "currentLightboxIndex s = Num i" and "0 \<le> i"
    and "i < int (length (currentLightboxSource s))" and "modalImg s \<noteq> None"
  shows "(\<exists>s'. nextImage e s = Done s'
           \<and> currentLightboxIndex s' = Num ((i + 1) mod int (length (currentLightboxSource s)))
           \<and> currentLightboxSource s' = currentLightboxSource s)
     \<and> (\<exists>s'. prevImage e s = Done s'
           \<and> currentLightboxIndex s'
               = Num ((i - 1 + int (length (currentLightboxSource s)))
                        mod int (length (currentLightboxSource s)))
           \<and> currentLightboxSource s' = currentLightboxSource s)
     \<and> 0 \<le> (i + 1) mod int (length (currentLightboxSource s))
     \<and> (i + 1) mod int (length (currentLightboxSource s)) < int (length (currentLightboxSource s))
     \<and> 0 \<le> (i - 1 + int (length (currentLightboxSource s))) mod int (length (currentLightboxSource s))
     \<and> (i - 1 + int (length (currentLightboxSource s))) mod int (length (currentLightboxSource s))
           < int (length (currentLightboxSource s))
     \<and> (modalNext s \<longrightarrow>
           currentLightboxIndex (run (replicate n ClickModalNext) s)
             = Num ((i + int n) mod int (length (currentLightboxSource s)))
           \<and> currentLightboxIndex (run (replicate (length (currentLightboxSource s)) ClickModalNext) s)
             = Num i)
     \<and> (length (currentLightboxSource s) = 1 \<longrightarrow>
           (i + 1) mod int (length (currentLightboxSource s)) = 0
           \<and> (i - 1 + int (length (currentLightboxSource s))) mod int (length (currentLightboxSource s)) = 0)"
proof -
  let ?L = "int (length (currentLightboxSource s))"
  have a: "\<exists>s'. nextImage e s = Done s'
           \<and> currentLightboxIndex s' = Num ((i + 1) mod ?L)
           \<and> currentLightboxSource s' = currentLightboxSource s"
    using nextImage_Done[OF assms, of e] by blast
  have b: "\<exists>s'. prevImage e s = Done s'
           \<and> currentLightboxIndex s' = Num ((i - 1 + ?L) mod ?L)
           \<and> currentLightboxSource s' = currentLightboxSource s"
    using prevImage_Done[OF assms, of e] by blast
  have Lpos: "0 < ?L" using assms(2,3) by linarith
  have c: "0 \<le> (i + 1) mod ?L" "(i + 1) mod ?L < ?L"
    "0 \<le> (i - 1 + ?L) mod ?L" "(i - 1 + ?L) mod ?L < ?L"
    using Lpos by simp_all
  have d: "currentLightboxIndex (run (replicate n ClickModalNext) s) = Num ((i + int n) mod ?L)
      \<and> currentLightboxIndex (run (replicate (length (currentLightboxSource s)) ClickModalNext) s) = Num i"
    if "modalNext s"
    using next_clicks[OF assms that, of n]
      next_clicks[OF assms that, of "length (currentLightboxSource s)"] assms(2,3)
    by simp
  have e: "(i + 1) mod ?L = 0 \<and> (i - 1 + ?L) mod ?L = 0"
    if "length (currentLightboxSource s) = 1"
    using that by simp
  from a b c d e show ?thesis by blast
qed

theorem lightbox_next_prev_cyclic_witness:
  "currentLightboxIndex (demoPage\<lparr>currentLightboxSource := [demoArtItem ''A'']\<rparr>) = Num 0
   \<and> (0::int) < int (length (currentLightboxSource (demoPage\<lparr>currentLightboxSource := [demoArtItem ''A'']\<rparr>)))
   \<and> modalImg (demoPage\<lparr>currentLightboxSource := [demoArtItem ''A'']\<rparr>) \<noteq> None
   \<and> modalNext (demoPage\<lparr>currentLightboxSource := [demoArtItem ''A'']\<rparr>)
   \<and> length (currentLightboxSource (demoPage\<lparr>currentLightboxSource := [demoArtItem ''A'']\<rparr>)) = 1
   \<and> (\<exists>s'. nextImage True (demoPage\<lparr>currentLightboxSource := [demoArtItem ''A'']\<rparr>) = Done s'
          \<and> currentLightboxIndex s' = Num 0)
   \<and> (\<exists>s'. prevImage True (demoPage\<lparr>currentLightboxSource := [demoArtItem ''A'']\<rparr>) = Done s'
          \<and> currentLightboxIndex s' = Num 0)
   \<and> currentLightboxIndex
        (run (replicate 3 ClickModalNext) (demoPage\<lparr>currentLightboxSource := [demoArtItem ''A'']\<rparr>))
       = Num 0
   \<and> (\<exists>s'. nextImage False
               (demoPage\<lparr>currentLightboxSource := heroImages demoArt @ artworks demoArt,
                          currentLightboxIndex := Num 4\<rparr>) = Done s'
          \<and> currentLightboxIndex s' = Num 0)
   \<and> (\<exists>s'. prevImage False
               (demoPage\<lparr>currentLightboxSource := heroImages demoArt @ artworks demoArt,
                          currentLightboxIndex := Num 4\<rparr>) = Done s'
          \<and> currentLightboxIndex s' = Num 3)"
proof -
  let ?p = "demoPage\<lparr>currentLightboxSource := [demoArtItem ''A'']\<rparr>"
  let ?q = "demoPage\<lparr>currentLightboxSource := heroImages demoArt @ artworks demoArt,
                          currentLightboxIndex := Num 4\<rparr>"
  have h: "currentLightboxIndex ?p = Num 0" "(0::int) \<le> 0"
    "0 < int (length (currentLightboxSource ?p))" "modalImg ?p \<noteq> None"
    by (simp_all add: demoPage_def)
  have m: "modalNext ?p" "length (currentLightboxSource ?p) = 1"
    by (simp_all add: demoPage_def)
  have k: "currentLightboxIndex ?q = Num 4" "(0::int) \<le> 4"
    "4 < int (length (currentLightboxSource ?q))" "modalImg ?q \<noteq> None"
    by (simp_all add: demoPage_def demoArt_def)
  have l: "int (length (currentLightboxSource ?q)) = 5"
    by (simp add: demoArt_def)
  have one: "(\<exists>s'. nextImage True ?p = Done s' \<and> currentLightboxIndex s' = Num 0)
      \<and> (\<exists>s'. prevImage True ?p = Done s' \<and> currentLightboxIndex s' = Num 0)
      \<and> currentLightboxIndex (run (replicate 3 ClickModalNext) ?p) = Num 0"
    using h m lightbox_next_prev_cyclic[OF h, of True 3]
    by simp blast
  have five: "(\<exists>s'. nextImage False ?q = Done s' \<and> currentLightboxIndex s' = Num 0)
      \<and> (\<exists>s'. prevImage False ?q = Done s' \<and> currentLightboxIndex s' = Num 3)"
    using lightbox_next_prev_cyclic[OF k, of False 0] unfolding l
    by simp blast
  from h m one five show ?thesis by simp
qed


section \<open>Gallery\<close>

lemma forEach_append_indexed:
  "forEach (\<lambda>x index acc. acc @ [f x index]) xs k acc
     = acc @ map (\<lambda>j. f (xs ! j) (k + j)) [0..<length xs]"
proof (induction xs arbitrary: k acc)
  case Nil
  then show ?case by simp
next
  case (Cons x xs)
  have "map (\<lambda>j. f ((x # xs) ! j) (k + j)) [0..<length (x # xs)]
          = f x k # map (\<lambda>j. f (xs ! j) (Suc k + j)) [0..<length xs]"
    by (simp add: upt_conv_Cons map_Suc_upt[symmetric] del: upt_Suc)
  then show ?case by (simp add: Cons.IH)
qed

lemma openLightbox_sets:
  "currentLightboxSource (stateOf (openLightbox src i s)) = src"
  "currentLightboxIndex (stateOf (openLightbox src i s)) = Num (int i)"
proof -
  have a: "currentLightboxSource (stateOf (andThen (updateLightboxContent t) generateThumbnails))
             = currentLightboxSource t" 
          "currentLightboxIndex (stateOf (andThen (updateLightboxContent t) generateThumbnails))
             = currentLightboxIndex t" for t
    using updateLightboxContent_fields(3,4)[of t]
    by (cases "updateLightboxContent t"; simp add: generateThumbnails_fields)+
  show "currentLightboxSource (stateOf (openLightbox src i s)) = src"
    "currentLightboxIndex (stateOf (openLightbox src i s)) = Num (int i)"
    by (simp_all add: openLightbox_def Let_def a split: option.splits)
qed

lemma openLightbox_Done:
  assumes "imageModal s \<noteq> None" and "modalImg s \<noteq> None" and "thumbnailStrip s \<noteq> None"
    and "i < length src"
  shows "\<exists>s'. openLightbox src i s = Done s' \<and> lightboxOpen s'"
proof -
  from assms(1) obtain cl where cl: "imageModal s = Some cl" by blast
  let ?t = "s\<lparr>currentLightboxSource := src, currentLightboxIndex := Num (int i),
               imageModal := Some (classList_add ''active'' (classList_remove ''hidden'' cl)),
               bodyOverflow := ''hidden''\<rparr>"
  have o: "openLightbox src i s = andThen (updateLightboxContent ?t) generateThumbnails"
    using cl by (simp add: openLightbox_def Let_def)
  have j: "js_index (currentLightboxSource ?t) (currentLightboxIndex ?t) = Some (src ! i)"
    using assms(4) by simp
  have mi: "modalImg ?t \<noteq> None" using assms(2) by simp
  from updateLightboxContent_Done[OF j mi] obtain u where u: "updateLightboxContent ?t = Done u"
    "imageModal u = imageModal ?t" "(thumbnailStrip u = None) = (thumbnailStrip ?t = None)"
    by (elim exE conjE)
  from u(3) assms(3) obtain ts where ts: "thumbnailStrip u = Some ts" by auto
  let ?v = "u\<lparr>thumbnailStrip :=
                    Some (forEach (\<lambda>item index strip. strip @ [createThumb (currentLightboxIndex u) item index])
                            (currentLightboxSource u) 0 [])\<rparr>"
  have g: "generateThumbnails u = Done ?v"
    using ts by (simp add: generateThumbnails_def)
  have "lightboxOpen ?v"
    using u(2)
    by (simp add: lightboxOpen_def classList_contains_def classList_add_def classList_remove_def)
  then show ?thesis using o u(1) g by simp
qed

text \<open>
  C5. On a page with the view-all button, the gallery modal and the gallery grid, a
  click on the button computes the sequence \<open>heroImages @ artworks\<close> from the catalog as
  it is then, and fills the grid with one block per item, in that order: as many blocks
  as \<open>length heroImages + length artworks\<close>. A click on block \<open>i\<close> calls \<open>openLightbox\<close>
  with that sequence and \<open>i\<close>, which makes them the lightbox's source and index (and
  opens the lightbox when its elements are there).
\<close>

theorem gallery_open_sequence:
  assumes "viewAllArt s" and "galleryModal s = Some cl" and "fullGalleryGrid s = Some g0"
  shows "\<exists>s'. clickViewAll s = Done s'
      \<and> artData s' = artData s
      \<and> fullGalleryGrid s'
          = Some (map (\<lambda>i. createGalleryItem (heroImages (artData s) @ artworks (artData s))
                              ((heroImages (artData s) @ artworks (artData s)) ! i) i)
                    [0..<length (heroImages (artData s)) + length (artworks (artData s))])
      \<and> (\<forall>i < length (heroImages (artData s)) + length (artworks (artData s)).
            clickGalleryItem i s' = openLightbox (heroImages (artData s) @ artworks (artData s)) i s'
            \<and> currentLightboxSource (stateOf (clickGalleryItem i s'))
                = heroImages (artData s) @ artworks (artData s)
            \<and> currentLightboxIndex (stateOf (clickGalleryItem i s')) = Num (int i)
            \<and> (imageModal s \<noteq> None \<and> modalImg s \<noteq> None \<and> thumbnailStrip s \<noteq> None
                \<longrightarrow> (\<exists>s''. clickGalleryItem i s' = Done s'' \<and> lightboxOpen s'')))"
proof -
  let ?all = "heroImages (artData s) @ artworks (artData s)"
  let ?grid = "map (\<lambda>i. createGalleryItem ?all (?all ! i) i) [0..<length ?all]"
  let ?s' = "s\<lparr>fullGalleryGrid := Some ?grid,
               galleryModal := Some (classList_add ''active'' (classList_remove ''hidden'' cl)),
               bodyOverflow := ''hidden''\<rparr>"
  have c: "clickViewAll s = Done ?s'"
    using assms by (simp add: clickViewAll_def Let_def forEach_append_indexed)
  have item: "clickGalleryItem i ?s' = openLightbox ?all i ?s'" if "i < length ?all" for i
    using that by (simp add: clickGalleryItem_def createGalleryItem_def)
  have "clickGalleryItem i ?s' = openLightbox ?all i ?s'
            \<and> currentLightboxSource (stateOf (clickGalleryItem i ?s')) = ?all
            \<and> currentLightboxIndex (stateOf (clickGalleryItem i ?s')) = Num (int i)
            \<and> (imageModal s \<noteq> None \<and> modalImg s \<noteq> None \<and> thumbnailStrip s \<noteq> None
                \<longrightarrow> (\<exists>s''. clickGalleryItem i ?s' = Done s'' \<and> lightboxOpen s''))"
    if i': "i < length (heroImages (artData s)) + length (artworks (artData s))" for i
  proof -
    from i' have i: "i < length ?all" by simp
    have a: "clickGalleryItem i ?s' = openLightbox ?all i ?s'"
      by (rule item[OF i])
    have b: "currentLightboxSource (stateOf (clickGalleryItem i ?s')) = ?all"
      unfolding a by (rule openLightbox_sets)
    have d: "currentLightboxIndex (stateOf (clickGalleryItem i ?s')) = Num (int i)"
      unfolding a by (rule openLightbox_sets)
    have "\<exists>s''. clickGalleryItem i ?s' = Done s'' \<and> lightboxOpen s''"
      if "imageModal s \<noteq> None \<and> modalImg s \<noteq> None \<and> thumbnailStrip s \<noteq> None"
      unfolding a using that i by (intro openLightbox_Done) simp_all
    with a b d show ?thesis by blast
  qed
  then have "\<forall>i < length (heroImages (artData s)) + length (artworks (artData s)).
            clickGalleryItem i ?s' = openLightbox ?all i ?s'
            \<and> currentLightboxSource (stateOf (clickGalleryItem i ?s')) = ?all
            \<and> currentLightboxIndex (stateOf (clickGalleryItem i ?s')) = Num (int i)
            \<and> (imageModal s \<noteq> None \<and> modalImg s \<noteq> None \<and> thumbnailStrip s \<noteq> None
                \<longrightarrow> (\<exists>s''. clickGalleryItem i ?s' = Done s'' \<and> lightboxOpen s''))"
    by blast
  moreover have "artData ?s' = artData s" by simp
  moreover have "fullGalleryGrid ?s'
      = Some (map (\<lambda>i. createGalleryItem ?all (?all ! i) i)
                [0..<length (heroImages (artData s)) + length (artworks (artData s))])"
    by simp
  ultimately show ?thesis using c by blast
qed

theorem gallery_open_sequence_witness:
  "viewAllArt (demoPage\<lparr>artData := demoArt\<rparr>)
   \<and> galleryModal (demoPage\<lparr>artData := demoArt\<rparr>) = Some [''hidden'']
   \<and> fullGalleryGrid (demoPage\<lparr>artData := demoArt\<rparr>) = Some []
   \<and> (\<exists>s'. clickViewAll (demoPage\<lparr>artData := demoArt\<rparr>) = Done s'
         \<and> map gi_onclick (the (fullGalleryGrid s'))
             = map (Pair (map demoArtItem [''A'', ''B'', ''C'', ''D'', ''E''])) [0, 1, 2, 3, 4]
         \<and> currentLightboxSource (stateOf (clickGalleryItem 3 s'))
             = map demoArtItem [''A'', ''B'', ''C'', ''D'', ''E'']
         \<and> currentLightboxIndex (stateOf (clickGalleryItem 3 s')) = Num 3
         \<and> (\<exists>s''. clickGalleryItem 3 s' = Done s'' \<and> lightboxOpen s''))"
proof -
  let ?p = "demoPage\<lparr>artData := demoArt\<rparr>"
  have h: "viewAllArt ?p" "galleryModal ?p = Some [''hidden'']" "fullGalleryGrid ?p = Some []"
    by (simp_all add: demoPage_def)
  have e: "imageModal ?p \<noteq> None \<and> modalImg ?p \<noteq> None \<and> thumbnailStrip ?p \<noteq> None"
    by (simp add: demoPage_def)
  have l: "length (heroImages (artData ?p)) + length (artworks (artData ?p)) = 5"
    "heroImages (artData ?p) @ artworks (artData ?p) = map demoArtItem [''A'', ''B'', ''C'', ''D'', ''E'']"
    by (simp_all add: demoArt_def)
  have u: "[0..<5] = [0, 1, 2, 3, 4::nat]" by code_simp
  from gallery_open_sequence[OF h] obtain s' where s':
    "clickViewAll ?p = Done s'"
    "fullGalleryGrid s'
          = Some (map (\<lambda>i. createGalleryItem (heroImages (artData ?p) @ artworks (artData ?p))
                              ((heroImages (artData ?p) @ artworks (artData ?p)) ! i) i)
                    [0..<length (heroImages (artData ?p)) + length (artworks (artData ?p))])"
    "\<forall>i < length (heroImages (artData ?p)) + length (artworks (artData ?p)).
            clickGalleryItem i s' = openLightbox (heroImages (artData ?p) @ artworks (artData ?p)) i s'
            \<and> currentLightboxSource (stateOf (clickGalleryItem i s'))
                = heroImages (artData ?p) @ artworks (artData ?p)
            \<and> currentLightboxIndex (stateOf (clickGalleryItem i s')) = Num (int i)
            \<and> (imageModal ?p \<noteq> None \<and> modalImg ?p \<noteq> None \<and> thumbnailStrip ?p \<noteq> None
                \<longrightarrow> (\<exists>s''. clickGalleryItem i s' = Done s'' \<and> lightboxOpen s''))"
    by blast
  have "(3::nat) < length (heroImages (artData ?p)) + length (artworks (artData ?p))"
    unfolding l by simp
  with s'(3) e have three:
    "currentLightboxSource (stateOf (clickGalleryItem 3 s'))
       = heroImages (artData ?p) @ artworks (artData ?p)"
    "currentLightboxIndex (stateOf (clickGalleryItem 3 s')) = Num (int 3)"
    "\<exists>s''. clickGalleryItem 3 s' = Done s'' \<and> lightboxOpen s''"
    by blast+
  have "map gi_onclick (the (fullGalleryGrid s'))
             = map (Pair (map demoArtItem [''A'', ''B'', ''C'', ''D'', ''E''])) [0, 1, 2, 3, 4]"
    unfolding s'(2) l u by (simp add: createGalleryItem_def)
  with h s'(1) three show ?thesis unfolding l by simp
qed

end
